theory Spec2Isabelle
  imports Complex_Main
begin

section \<open>Numbers, vectors and the p5.js helpers\<close>

text \<open>
  JavaScript numbers are modelled by the reals: rounding, infinities and NaN are left
  out. A division whose divisor is not a non-zero literal is checked: where JavaScript
  would produce an infinity or NaN, the model returns the fault \<open>DivisionByZero\<close>.
  Reading a property of \<open>null\<close> or \<open>undefined\<close> throws in JavaScript; the model returns
  the fault \<open>TypeError\<close>. Every function that may reach one of the two returns a sum,
  with \<open>Inl\<close> for the fault. Frame counters (\<open>age\<close>, \<open>spawnTimer\<close>,
  \<open>step\<close>, bounce tallies) only ever start at zero and are incremented, so they are
  natural numbers.

  \<open>p5.Vector\<close> objects are created with \<open>createVector(x, y)\<close> only, so their third
  component is always zero and is omitted.
\<close>

record vector =
  vec_x :: real
  vec_y :: real

definition createVector :: "real \<Rightarrow> real \<Rightarrow> vector" where
  "createVector a b = \<lparr>vec_x = a, vec_y = b\<rparr>"

definition vmult :: "vector \<Rightarrow> real \<Rightarrow> vector" where
  "vmult v k = \<lparr>vec_x = vec_x v * k, vec_y = vec_y v * k\<rparr>"

definition vadd :: "vector \<Rightarrow> vector \<Rightarrow> vector" where
  "vadd a b = \<lparr>vec_x = vec_x a + vec_x b, vec_y = vec_y a + vec_y b\<rparr>"

definition vsub :: "vector \<Rightarrow> vector \<Rightarrow> vector" where
  "vsub a b = \<lparr>vec_x = vec_x a - vec_x b, vec_y = vec_y a - vec_y b\<rparr>"

definition vdot :: "vector \<Rightarrow> vector \<Rightarrow> real" where
  "vdot a b = vec_x a * vec_x b + vec_y a * vec_y b"

definition vmag :: "vector \<Rightarrow> real" where
  "vmag v = sqrt (vec_x v * vec_x v + vec_y v * vec_y v)"

text \<open>\<open>dist(x1, y1, x2, y2)\<close> of p5.js.\<close>

definition dist2 :: "real \<Rightarrow> real \<Rightarrow> real \<Rightarrow> real \<Rightarrow> real" where
  "dist2 x1 y1 x2 y2 = sqrt ((x2 - x1) * (x2 - x1) + (y2 - y1) * (y2 - y1))"

datatype fault = DivisionByZero | TypeError

definition js_div :: "real \<Rightarrow> real \<Rightarrow> fault + real" where
  "js_div a b = (if b = 0 then Inl DivisionByZero else Inr (a / b))"

definition bind_result :: "fault + 'a \<Rightarrow> ('a \<Rightarrow> fault + 'b) \<Rightarrow> fault + 'b" where
  "bind_result r f = (case r of Inl e \<Rightarrow> Inl e | Inr v \<Rightarrow> f v)"

text \<open>\<open>map(n, start1, stop1, start2, stop2)\<close> of p5.js; it divides by \<open>stop1 - start1\<close>.\<close>

definition p5_map :: "real \<Rightarrow> real \<Rightarrow> real \<Rightarrow> real \<Rightarrow> real \<Rightarrow> fault + real" where
  "p5_map n start1 stop1 start2 stop2 =
     bind_result (js_div (n - start1) (stop1 - start1))
       (\<lambda>q. Inr (q * (stop2 - start2) + start2))"

text \<open>
  \<open>random(min, max)\<close> of p5.js, given the sample \<open>rand\<close> that \<open>Math.random()\<close> returns
  (a number in \<open>[0, 1)\<close>); the two bounds are swapped when \<open>min > max\<close>.
\<close>

definition p5_random :: "real \<Rightarrow> real \<Rightarrow> real \<Rightarrow> real" where
  "p5_random rand lo hi =
     (if lo > hi then rand * (lo - hi) + hi else rand * (hi - lo) + lo)"

text \<open>\<open>atan2(y, x)\<close>, the angle of the point \<open>(x, y)\<close> in \<open>(-\<pi>, \<pi>]\<close>, and 0 at the origin.\<close>

definition atan2 :: "real \<Rightarrow> real \<Rightarrow> real" where
  "atan2 py px =
     (if 0 < px then arctan (py / px)
      else if px < 0 \<and> 0 \<le> py then arctan (py / px) + pi
      else if px < 0 then arctan (py / px) - pi
      else if 0 < py then pi / 2
      else if py < 0 then - (pi / 2)
      else 0)"

section \<open>Table, balls and cue: the parts the two subsystems read\<close>

record pocket =
  pocket_x :: real
  pocket_y :: real
  pocket_name :: string

record table =
  table_x :: real
  table_y :: real
  table_length :: real
  table_width :: real
  pocketPositions :: "pocket list"

record boundaries =
  b_left :: real
  b_right :: real
  b_top :: real
  b_bottom :: real

definition getBoundaries :: "table \<Rightarrow> boundaries" where
  "getBoundaries t =
     \<lparr>b_left = table_x t, b_right = table_x t + table_length t,
      b_top = table_y t, b_bottom = table_y t + table_width t\<rparr>"

definition getPocketPositions :: "table \<Rightarrow> pocket list" where
  "getPocketPositions t = pocketPositions t"

definition isInDZone :: "table \<Rightarrow> real \<Rightarrow> real \<Rightarrow> bool" where
  "isInDZone t px py =
     (let baulkX = table_x t + table_length t * 0.25;
          dRadius = 80;
          distanceFromCenter = dist2 px py baulkX (table_y t + table_width t / 2)
      in px \<le> baulkX \<and> distanceFromCenter \<le> dRadius)"

text \<open>A Matter.js body, as far as the code reads and writes it.\<close>

record body =
  body_position :: vector
  body_velocity :: vector

record ball =
  ball_x :: real
  ball_y :: real
  ball_body :: "body option"

definition setPosition :: "ball \<Rightarrow> real \<Rightarrow> real \<Rightarrow> ball" where
  "setPosition b px py =
     (let b1 = b\<lparr>ball_x := px, ball_y := py\<rparr>
      in case ball_body b1 of
           None \<Rightarrow> b1
         | Some bd \<Rightarrow> b1\<lparr>ball_body := Some (bd\<lparr>body_position := \<lparr>vec_x = px, vec_y = py\<rparr>\<rparr>)\<rparr>)"

definition getPosition :: "ball \<Rightarrow> vector" where
  "getPosition b =
     (case ball_body b of
        Some bd \<Rightarrow> \<lparr>vec_x = vec_x (body_position bd), vec_y = vec_y (body_position bd)\<rparr>
      | None \<Rightarrow> \<lparr>vec_x = ball_x b, vec_y = ball_y b\<rparr>)"

definition getVelocity :: "ball \<Rightarrow> vector" where
  "getVelocity b =
     (case ball_body b of
        Some bd \<Rightarrow> \<lparr>vec_x = vec_x (body_velocity bd), vec_y = vec_y (body_velocity bd)\<rparr>
      | None \<Rightarrow> \<lparr>vec_x = 0, vec_y = 0\<rparr>)"

definition setVelocity :: "ball \<Rightarrow> real \<Rightarrow> real \<Rightarrow> ball" where
  "setVelocity b velocityX velocityY =
     (case ball_body b of
        None \<Rightarrow> b
      | Some bd \<Rightarrow> b\<lparr>ball_body := Some (bd\<lparr>body_velocity := \<lparr>vec_x = velocityX, vec_y = velocityY\<rparr>\<rparr>)\<rparr>)"

record cue =
  angle :: real
  cue_visible :: bool
  power :: real
  charging :: bool

definition isVisible :: "cue \<Rightarrow> bool" where
  "isVisible c = cue_visible c"

definition isCharging :: "cue \<Rightarrow> bool" where
  "isCharging c = charging c"

definition getCurrentPower :: "cue \<Rightarrow> real" where
  "getCurrentPower c = power c"

section \<open>BallTrailPrediction\<close>

record sample =
  sample_x :: real
  sample_y :: real
  bounce :: nat
  speed :: real

record BallTrailPrediction =
  maxPredictionSteps :: nat
  predictionStepSize :: real
  maxBounces :: nat
  speedThreshold :: real
  predictionTrail :: "sample list"
  predictionBounces :: nat
  frictionCoefficient :: real
  cushionRestitution :: real
  ballRadius :: real
  bt_enabled :: bool
  bt_visible :: bool

text \<open>The constructor; the global \<open>ballRadius\<close> of sketch.js is \<open>500 / 36 / 2\<close>.\<close>

definition BallTrailPrediction_new :: BallTrailPrediction where
  "BallTrailPrediction_new =
     \<lparr>maxPredictionSteps = 300, predictionStepSize = 2, maxBounces = 5,
      speedThreshold = 0.3, predictionTrail = [], predictionBounces = 0,
      frictionCoefficient = 0.985, cushionRestitution = 0.75,
      ballRadius = 500 / 36 / 2, bt_enabled = True, bt_visible = False\<rparr>"

record collision =
  hit :: bool
  hitPoint :: vector
  normal :: vector

definition checkCushionCollision ::
  "BallTrailPrediction \<Rightarrow> vector \<Rightarrow> vector \<Rightarrow> table \<Rightarrow> collision" where
  "checkCushionCollision p currentPos nextPos tbl =
     (let bs = getBoundaries tbl;
          collision0 = \<lparr>hit = False, hitPoint = nextPos, normal = createVector 0 0\<rparr>;
          cushionThickness = 12;
          leftBound = b_left bs + cushionThickness + ballRadius p;
          rightBound = b_right bs - cushionThickness - ballRadius p;
          topBound = b_top bs + cushionThickness + ballRadius p;
          bottomBound = b_bottom bs - cushionThickness - ballRadius p
      in if vec_x nextPos \<le> leftBound \<and> vec_x currentPos > leftBound then
           collision0\<lparr>hit := True, hitPoint := createVector leftBound (vec_y nextPos),
                      normal := createVector 1 0\<rparr>
         else if vec_x nextPos \<ge> rightBound \<and> vec_x currentPos < rightBound then
           collision0\<lparr>hit := True, hitPoint := createVector rightBound (vec_y nextPos),
                      normal := createVector (- 1) 0\<rparr>
         else if vec_y nextPos \<le> topBound \<and> vec_y currentPos > topBound then
           collision0\<lparr>hit := True, hitPoint := createVector (vec_x nextPos) topBound,
                      normal := createVector 0 1\<rparr>
         else if vec_y nextPos \<ge> bottomBound \<and> vec_y currentPos < bottomBound then
           collision0\<lparr>hit := True, hitPoint := createVector (vec_x nextPos) bottomBound,
                      normal := createVector 0 (- 1)\<rparr>
         else collision0)"

definition reflectVelocity :: "vector \<Rightarrow> vector \<Rightarrow> vector" where
  "reflectVelocity incident nrm =
     (let dotProduct = vdot incident nrm;
          reflection = vsub incident (vmult nrm (2 * dotProduct))
      in reflection)"

text \<open>
  One pass through the body of the \<open>for\<close> loop of \<open>calculatePrediction\<close>: the updated
  predictor, the velocity and the position after the pass.
\<close>

definition predictionStep ::
  "BallTrailPrediction \<Rightarrow> table \<Rightarrow> vector \<Rightarrow> vector \<Rightarrow> BallTrailPrediction \<times> vector \<times> vector" where
  "predictionStep p tbl velocity currentPos =
     (let velocity1 = vmult velocity (frictionCoefficient p);
          nextPos0 = vadd currentPos (vmult velocity1 (predictionStepSize p));
          c = checkCushionCollision p currentPos nextPos0 tbl;
          nextPos = (if hit c then hitPoint c else nextPos0);
          velocity2 = (if hit c
                       then vmult (reflectVelocity velocity1 (normal c)) (cushionRestitution p)
                       else velocity1);
          p1 = (if hit c then p\<lparr>predictionBounces := predictionBounces p + 1\<rparr> else p);
          p2 = p1\<lparr>predictionTrail := predictionTrail p1 @
                  [\<lparr>sample_x = vec_x nextPos, sample_y = vec_y nextPos,
                    bounce = predictionBounces p1, speed = vmag velocity2\<rparr>]\<rparr>
      in (p2, velocity2, nextPos))"

function predictionLoop ::
  "BallTrailPrediction \<Rightarrow> table \<Rightarrow> nat \<Rightarrow> vector \<Rightarrow> vector \<Rightarrow> BallTrailPrediction" where
  "predictionLoop p tbl step velocity currentPos =
     (if step < maxPredictionSteps p \<and> predictionBounces p < maxBounces p then
        (let r = predictionStep p tbl velocity currentPos;
             p2 = fst r; velocity2 = fst (snd r); nextPos = snd (snd r)
         in if vmag velocity2 < speedThreshold p2 then p2
            else predictionLoop p2 tbl (step + 1) velocity2 nextPos)
      else p)"
  by pat_completeness auto
termination
  by (relation "measure (\<lambda>(p, tbl, step, v, c). maxPredictionSteps p - step)")
     (auto simp: predictionStep_def Let_def)

definition calculatePrediction ::
  "BallTrailPrediction \<Rightarrow> ball \<Rightarrow> cue \<Rightarrow> table \<Rightarrow> fault + BallTrailPrediction" where
  "calculatePrediction p cueBall c tbl =
     (if \<not> bt_enabled p \<or> ball_body cueBall = None \<or> \<not> isVisible c then
        Inr (p\<lparr>predictionTrail := []\<rparr>)
      else
        (let p0 = p\<lparr>predictionTrail := [], predictionBounces := 0\<rparr>;
             cueBallPos = getPosition cueBall;
             startPos = createVector (vec_x cueBallPos) (vec_y cueBallPos);
             shootAngle = angle c + pi;
             launchSpeed = (if isCharging c
                            then p5_map (getCurrentPower c / 100) 0 1 2 12
                            else Inr 6)
         in bind_result launchSpeed
              (\<lambda>spd.
                 let velocity0 = createVector (cos shootAngle * spd) (sin shootAngle * spd);
                     currentPos = startPos
                 in Inr (predictionLoop p0 tbl 0 velocity0 currentPos))))"

section \<open>DynamicObstacles\<close>

text \<open>
  The Matter.js world (\<open>World.add\<close>, \<open>World.remove\<close>), the console and the drawing code
  are outside the model; an obstacle's physics body is kept as the rectangle it is
  created from.
\<close>

datatype phase = Warning | Active | Fading

record rectBody =
  rect_x :: real
  rect_y :: real
  rect_width :: real
  rect_height :: real

record obstacle =
  obs_x :: real
  obs_y :: real
  age :: nat
  maxAge :: nat
  phase :: phase
  rotationAngle :: real
  rotationSpeed :: real
  obs_body :: "rectBody option"
  active :: bool

record obstacleSize =
  size_width :: real
  size_height :: real

record DynamicObstacles =
  obstacles :: "obstacle list"
  spawnTimer :: nat
  spawnRate :: nat
  maxObstacles :: nat
  warningTime :: nat
  activeTime :: nat
  fadeTime :: nat
  interactionRadius :: real
  emergencyRadius :: real
  maxPushForce :: real
  minPushForce :: real
  obstacleSize :: obstacleSize
  do_enabled :: bool

definition DynamicObstacles_new :: DynamicObstacles where
  "DynamicObstacles_new =
     \<lparr>obstacles = [], spawnTimer = 0, spawnRate = 420, maxObstacles = 2,
      warningTime = 120, activeTime = 300, fadeTime = 60,
      interactionRadius = 60, emergencyRadius = 25,
      maxPushForce = 6, minPushForce = 1.5,
      obstacleSize = \<lparr>size_width = 20, size_height = 50\<rparr>, do_enabled = True\<rparr>"

record BallManager =
  redBalls :: "ball list"
  coloredBalls :: "ball list"
  cueBall :: ball
  ballsMoving :: bool

definition areBallsMoving :: "BallManager \<Rightarrow> bool" where
  "areBallsMoving bm = ballsMoving bm"

definition getCueBall :: "BallManager \<Rightarrow> ball" where
  "getCueBall bm = cueBall bm"

definition getRedBalls :: "BallManager \<Rightarrow> ball list" where
  "getRedBalls bm = redBalls bm"

definition getColoredBalls :: "BallManager \<Rightarrow> ball list" where
  "getColoredBalls bm = coloredBalls bm"

subsection \<open>The spawn search\<close>

definition maxAttempts :: nat where
  "maxAttempts = 50"

definition tooCloseToPockets :: "pocket list \<Rightarrow> real \<Rightarrow> real \<Rightarrow> bool" where
  "tooCloseToPockets pks px py =
     list_ex (\<lambda>pk. dist2 px py (pocket_x pk) (pocket_y pk) < 70) pks"

definition ballWithin80 :: "real \<Rightarrow> real \<Rightarrow> ball \<Rightarrow> bool" where
  "ballWithin80 px py b =
     (case ball_body b of
        None \<Rightarrow> False
      | Some bd \<Rightarrow> dist2 px py (vec_x (body_position bd)) (vec_y (body_position bd)) < 80)"

definition tooCloseToBalls :: "DynamicObstacles \<Rightarrow> BallManager \<Rightarrow> real \<Rightarrow> real \<Rightarrow> bool" where
  "tooCloseToBalls p bm px py =
     (let t1 = ballWithin80 px py (getCueBall bm);
          t2 = (if \<not> t1 then list_ex (ballWithin80 px py) (getRedBalls bm) else t1);
          t3 = (if \<not> t2 then list_ex (ballWithin80 px py) (getColoredBalls bm) else t2);
          t4 = (if \<not> t3
                then list_ex (\<lambda>ob. dist2 px py (obs_x ob) (obs_y ob) < 100) (obstacles p)
                else t3)
      in t4)"

text \<open>
  The \<open>while\<close> loop of \<open>findSafeSpawnPosition\<close>. The results of \<open>Math.random()\<close> are the
  sequence \<open>rnd\<close>; \<open>idx\<close> is the number of samples drawn so far and is returned with the
  result, two more for every attempt made.
\<close>

function findSafeSpawnPosition_loop ::
  "DynamicObstacles \<Rightarrow> table \<Rightarrow> BallManager \<Rightarrow> (nat \<Rightarrow> real) \<Rightarrow> nat \<Rightarrow> nat
     \<Rightarrow> vector option \<times> nat" where
  "findSafeSpawnPosition_loop p tbl bm rnd idx attempts =
     (if attempts < maxAttempts then
        (let bs = getBoundaries tbl;
             px = p5_random (rnd idx) (b_left bs + 80) (b_right bs - 80);
             py = p5_random (rnd (idx + 1)) (b_top bs + 80) (b_bottom bs - 80)
         in if isInDZone tbl px py then
              findSafeSpawnPosition_loop p tbl bm rnd (idx + 2) (attempts + 1)
            else if tooCloseToPockets (getPocketPositions tbl) px py then
              findSafeSpawnPosition_loop p tbl bm rnd (idx + 2) (attempts + 1)
            else if \<not> tooCloseToBalls p bm px py then
              (Some \<lparr>vec_x = px, vec_y = py\<rparr>, idx + 2)
            else findSafeSpawnPosition_loop p tbl bm rnd (idx + 2) (attempts + 1))
      else (None, idx))"
  by pat_completeness auto
termination
  by (relation "measure (\<lambda>(p, tbl, bm, rnd, idx, attempts). maxAttempts - attempts)") auto

definition findSafeSpawnPosition ::
  "DynamicObstacles \<Rightarrow> table \<Rightarrow> BallManager \<Rightarrow> (nat \<Rightarrow> real) \<Rightarrow> nat \<Rightarrow> vector option \<times> nat" where
  "findSafeSpawnPosition p tbl bm rnd idx = findSafeSpawnPosition_loop p tbl bm rnd idx 0"

definition spawnRandomObstacle ::
  "DynamicObstacles \<Rightarrow> table \<Rightarrow> BallManager \<Rightarrow> (nat \<Rightarrow> real) \<Rightarrow> nat \<Rightarrow> DynamicObstacles \<times> nat" where
  "spawnRandomObstacle p tbl bm rnd idx =
     (case findSafeSpawnPosition p tbl bm rnd idx of
        (None, idx') \<Rightarrow> (p, idx')
      | (Some spawnPos, idx') \<Rightarrow>
          (let ob = \<lparr>obs_x = vec_x spawnPos, obs_y = vec_y spawnPos,
                     age = 0, maxAge = warningTime p + activeTime p + fadeTime p,
                     phase = Warning, rotationAngle = 0, rotationSpeed = 0.08,
                     obs_body = None, active = False\<rparr>
           in (p\<lparr>obstacles := obstacles p @ [ob]\<rparr>, idx')))"

subsection \<open>Lifecycle\<close>

definition activateObstacle :: "DynamicObstacles \<Rightarrow> obstacle \<Rightarrow> obstacle" where
  "activateObstacle p ob =
     ob\<lparr>obs_body := Some \<lparr>rect_x = obs_x ob, rect_y = obs_y ob,
                           rect_width = size_width (obstacleSize p),
                           rect_height = size_height (obstacleSize p)\<rparr>,
        active := True\<rparr>"

definition deactivateObstacle :: "obstacle \<Rightarrow> obstacle" where
  "deactivateObstacle ob =
     (let ob1 = (if obs_body ob \<noteq> None then ob\<lparr>obs_body := None\<rparr> else ob)
      in ob1\<lparr>active := False\<rparr>)"

definition updateObstaclePhase :: "DynamicObstacles \<Rightarrow> obstacle \<Rightarrow> obstacle" where
  "updateObstaclePhase p ob =
     (if age ob \<le> warningTime p then ob\<lparr>phase := Warning\<rparr>
      else if age ob \<le> warningTime p + activeTime p then
        (let ob1 = (if phase ob = Warning then activateObstacle p ob else ob)
         in ob1\<lparr>phase := Active\<rparr>)
      else if age ob \<le> maxAge ob then
        (let ob1 = (if phase ob = Active then deactivateObstacle ob else ob)
         in ob1\<lparr>phase := Fading\<rparr>)
      else ob)"

text \<open>\<open>this.obstacles.splice(index, 1)\<close>; reading the body of a missing element throws.\<close>

definition removeObstacle :: "obstacle list \<Rightarrow> nat \<Rightarrow> fault + obstacle list" where
  "removeObstacle obs index =
     (if index < length obs then Inr (take index obs @ drop (Suc index) obs)
      else Inl TypeError)"

subsection \<open>Forces on the balls\<close>

definition pushBallAway :: "DynamicObstacles \<Rightarrow> ball \<Rightarrow> obstacle \<Rightarrow> real \<Rightarrow> fault + ball" where
  "pushBallAway p b ob distance =
     (case ball_body b of
        None \<Rightarrow> Inl TypeError
      | Some bd \<Rightarrow>
          (let pushAngle0 = atan2 (vec_y (body_position bd) - obs_y ob)
                                  (vec_x (body_position bd) - obs_x ob);
               pushAngle = pushAngle0 + sin (rotationAngle ob * 2) * 0.2
           in bind_result
                (p5_map distance 5 (interactionRadius p) (maxPushForce p) (minPushForce p))
                (\<lambda>forceMagnitude.
                   let velocityX = cos pushAngle * forceMagnitude;
                       velocityY = sin pushAngle * forceMagnitude;
                       currentVel = getVelocity b;
                       newVelX = vec_x currentVel + velocityX * 0.3;
                       newVelY = vec_y currentVel + velocityY * 0.3;
                       maxVel = 10;
                       currentSpeed = sqrt (newVelX * newVelX + newVelY * newVelY)
                   in if currentSpeed > maxVel then
                        bind_result (js_div newVelX currentSpeed)
                          (\<lambda>qx. bind_result (js_div newVelY currentSpeed)
                             (\<lambda>qy. Inr (setVelocity b (qx * maxVel) (qy * maxVel))))
                      else Inr (setVelocity b newVelX newVelY))))"

definition emergencyPushBall :: "ball \<Rightarrow> obstacle \<Rightarrow> fault + ball" where
  "emergencyPushBall b ob =
     (case ball_body b of
        None \<Rightarrow> Inl TypeError
      | Some bd \<Rightarrow>
          (let escapeAngle = atan2 (vec_y (body_position bd) - obs_y ob)
                                   (vec_x (body_position bd) - obs_x ob);
               escapeDistance = 40;
               newX = obs_x ob + cos escapeAngle * escapeDistance;
               newY = obs_y ob + sin escapeAngle * escapeDistance
           in Inr (setVelocity (setPosition b newX newY)
                     (cos escapeAngle * 3) (sin escapeAngle * 3))))"

text \<open>
  The callback of \<open>allBalls.forEach\<close>. \<open>allBalls\<close> holds the balls that have a body, so
  a ball without one is passed over.
\<close>

definition interactWithBall :: "DynamicObstacles \<Rightarrow> obstacle \<Rightarrow> ball \<Rightarrow> fault + ball" where
  "interactWithBall p ob b =
     (case ball_body b of
        None \<Rightarrow> Inr b
      | Some bd \<Rightarrow>
          (let distance = dist2 (obs_x ob) (obs_y ob)
                            (vec_x (body_position bd)) (vec_y (body_position bd))
           in bind_result
                (if distance < interactionRadius p \<and> distance > 5
                 then pushBallAway p b ob distance else Inr b)
                (\<lambda>b1. if distance < emergencyRadius p \<and> distance > 0
                       then emergencyPushBall b1 ob else Inr b1)))"

fun forEachBall :: "(ball \<Rightarrow> fault + ball) \<Rightarrow> ball list \<Rightarrow> fault + ball list" where
  "forEachBall f [] = Inr []"
| "forEachBall f (b # bs) =
     bind_result (f b) (\<lambda>b'. bind_result (forEachBall f bs) (\<lambda>bs'. Inr (b' # bs')))"

text \<open>
  The balls are visited in the order cue ball, red balls, coloured balls; the callback
  changes the ball objects in place, so the result is the ball manager with every ball
  replaced by what the callback made of it.
\<close>

definition handleBallInteractions ::
  "DynamicObstacles \<Rightarrow> obstacle \<Rightarrow> BallManager \<Rightarrow> fault + BallManager" where
  "handleBallInteractions p ob bm =
     bind_result (interactWithBall p ob (getCueBall bm))
       (\<lambda>cb. bind_result (forEachBall (interactWithBall p ob) (getRedBalls bm))
          (\<lambda>reds. bind_result (forEachBall (interactWithBall p ob) (getColoredBalls bm))
             (\<lambda>cols. Inr (bm\<lparr>cueBall := cb, redBalls := reds, coloredBalls := cols\<rparr>))))"

subsection \<open>The update tick\<close>

text \<open>
  The \<open>for\<close> loop of \<open>updateObstacles\<close>, from index \<open>length obs - 1\<close> down to 0;
  the first argument is the loop index plus one.
\<close>

fun updateObstacles_loop ::
  "DynamicObstacles \<Rightarrow> nat \<Rightarrow> obstacle list \<Rightarrow> BallManager \<Rightarrow> fault + (obstacle list \<times> BallManager)" where
  "updateObstacles_loop p 0 obs bm = Inr (obs, bm)"
| "updateObstacles_loop p (Suc i) obs bm =
     (if i < length obs then
        (let ob1 = (obs ! i)\<lparr>age := age (obs ! i) + 1\<rparr>;
             ob2 = updateObstaclePhase p ob1;
             ob3 = ob2\<lparr>rotationAngle := rotationAngle ob2 + rotationSpeed ob2\<rparr>;
             obs1 = obs[i := ob3]
         in bind_result
              (if phase ob3 = Active then handleBallInteractions p ob3 bm else Inr bm)
              (\<lambda>bm1. bind_result
                 (if age ob3 > maxAge ob3 then removeObstacle obs1 i else Inr obs1)
                 (\<lambda>obs2. updateObstacles_loop p i obs2 bm1)))
      else Inl TypeError)"

definition updateObstacles ::
  "DynamicObstacles \<Rightarrow> table \<Rightarrow> BallManager \<Rightarrow> fault + (DynamicObstacles \<times> BallManager)" where
  "updateObstacles p tbl bm =
     bind_result (updateObstacles_loop p (length (obstacles p)) (obstacles p) bm)
       (\<lambda>(obs, bm1). Inr (p\<lparr>obstacles := obs\<rparr>, bm1))"

definition update ::
  "DynamicObstacles \<Rightarrow> table \<Rightarrow> BallManager \<Rightarrow> (nat \<Rightarrow> real) \<Rightarrow> nat
     \<Rightarrow> fault + (DynamicObstacles \<times> BallManager \<times> nat)" where
  "update p tbl bm rnd idx =
     (if \<not> do_enabled p then Inr (p, bm, idx)
      else
        (let p1 = p\<lparr>spawnTimer := spawnTimer p + 1\<rparr>;
             (p2, idx') =
               (if spawnTimer p1 \<ge> spawnRate p1 \<and> length (obstacles p1) < maxObstacles p1
                   \<and> \<not> areBallsMoving bm
                then (let (p', i') = spawnRandomObstacle p1 tbl bm rnd idx
                      in (p'\<lparr>spawnTimer := 0\<rparr>, i'))
                else (p1, idx))
         in bind_result (updateObstacles p2 tbl bm)
              (\<lambda>(p3, bm1). Inr (p3, bm1, idx'))))"

definition enable :: "DynamicObstacles \<Rightarrow> DynamicObstacles" where
  "enable p = p\<lparr>do_enabled := True\<rparr>"

text \<open>\<open>disable\<close> removes the obstacle at index 0 until the array is empty.\<close>

function disable_loop :: "obstacle list \<Rightarrow> fault + obstacle list" where
  "disable_loop obs =
     (if length obs > 0 then
        (case removeObstacle obs 0 of Inl e \<Rightarrow> Inl e | Inr obs' \<Rightarrow> disable_loop obs')
      else Inr obs)"
  by pat_completeness auto
termination
  by (relation "measure length")
     (auto simp: removeObstacle_def split: if_splits)

definition disable :: "DynamicObstacles \<Rightarrow> fault + DynamicObstacles" where
  "disable p =
     bind_result (disable_loop (obstacles (p\<lparr>do_enabled := False\<rparr>)))
       (\<lambda>obs. Inr (p\<lparr>do_enabled := False, obstacles := obs\<rparr>))"

definition toggle :: "DynamicObstacles \<Rightarrow> fault + DynamicObstacles" where
  "toggle p = (if do_enabled p then disable p else Inr (enable p))"

section \<open>Notions used to state the properties\<close>

subsection \<open>The game's own table\<close>

text \<open>
  The table as \<open>GameManager.initialize\<close> builds it: the canvas is 1200 by 600, the
  pocket radius is one and a half ball diameters.
\<close>

definition Table_new :: table where
  "Table_new =
     (let tx = (1200 - 1000) / 2; ty = (600 - 500) / 2; len = 1000; wid = 500;
          pocketRadius = wid / 36 * 1.5
      in \<lparr>table_x = tx, table_y = ty, table_length = len, table_width = wid,
          pocketPositions =
            [\<lparr>pocket_x = tx + pocketRadius * 0.5, pocket_y = ty + pocketRadius * 0.5,
              pocket_name = ''top-left''\<rparr>,
             \<lparr>pocket_x = tx + len - pocketRadius * 0.5, pocket_y = ty + pocketRadius * 0.5,
              pocket_name = ''top-right''\<rparr>,
             \<lparr>pocket_x = tx + pocketRadius * 0.5, pocket_y = ty + wid - pocketRadius * 0.5,
              pocket_name = ''bottom-left''\<rparr>,
             \<lparr>pocket_x = tx + len - pocketRadius * 0.5, pocket_y = ty + wid - pocketRadius * 0.5,
              pocket_name = ''bottom-right''\<rparr>,
             \<lparr>pocket_x = tx + len / 2, pocket_y = ty + pocketRadius * 0.5,
              pocket_name = ''top-middle''\<rparr>,
             \<lparr>pocket_x = tx + len / 2, pocket_y = ty + wid - pocketRadius * 0.5,
              pocket_name = ''bottom-middle''\<rparr>]\<rparr>)"

subsection \<open>Cushion crossings\<close>

datatype side = LeftSide | RightSide | TopSide | BottomSide

text \<open>A table edge moved inwards by the cushion thickness (12) plus the ball radius.\<close>

definition insetBound :: "BallTrailPrediction \<Rightarrow> table \<Rightarrow> side \<Rightarrow> real" where
  "insetBound p tbl s =
     (case s of
        LeftSide \<Rightarrow> table_x tbl + (12 + ballRadius p)
      | RightSide \<Rightarrow> table_x tbl + table_length tbl - (12 + ballRadius p)
      | TopSide \<Rightarrow> table_y tbl + (12 + ballRadius p)
      | BottomSide \<Rightarrow> table_y tbl + table_width tbl - (12 + ballRadius p))"

text \<open>
  The previous position is strictly inside the inset edge \<open>s\<close> and the candidate is on
  it or beyond.
\<close>

definition crosses :: "BallTrailPrediction \<Rightarrow> table \<Rightarrow> vector \<Rightarrow> vector \<Rightarrow> side \<Rightarrow> bool" where
  "crosses p tbl prev cand s =
     (case s of
        LeftSide \<Rightarrow> insetBound p tbl s < vec_x prev \<and> vec_x cand \<le> insetBound p tbl s
      | RightSide \<Rightarrow> vec_x prev < insetBound p tbl s \<and> insetBound p tbl s \<le> vec_x cand
      | TopSide \<Rightarrow> insetBound p tbl s < vec_y prev \<and> vec_y cand \<le> insetBound p tbl s
      | BottomSide \<Rightarrow> vec_y prev < insetBound p tbl s \<and> insetBound p tbl s \<le> vec_y cand)"

text \<open>The first edge crossed, in the order left, right, top, bottom.\<close>

definition firstCrossing :: "BallTrailPrediction \<Rightarrow> table \<Rightarrow> vector \<Rightarrow> vector \<Rightarrow> side option" where
  "firstCrossing p tbl prev cand =
     find (crosses p tbl prev cand) [LeftSide, RightSide, TopSide, BottomSide]"

text \<open>The candidate with the coordinate of the crossed axis replaced, the other kept.\<close>

definition clampTo :: "side \<Rightarrow> real \<Rightarrow> vector \<Rightarrow> vector" where
  "clampTo s bnd cand =
     (case s of
        LeftSide \<Rightarrow> cand\<lparr>vec_x := bnd\<rparr>
      | RightSide \<Rightarrow> cand\<lparr>vec_x := bnd\<rparr>
      | TopSide \<Rightarrow> cand\<lparr>vec_y := bnd\<rparr>
      | BottomSide \<Rightarrow> cand\<lparr>vec_y := bnd\<rparr>)"

definition inwardNormal :: "side \<Rightarrow> vector" where
  "inwardNormal s =
     (case s of
        LeftSide \<Rightarrow> \<lparr>vec_x = 1, vec_y = 0\<rparr>
      | RightSide \<Rightarrow> \<lparr>vec_x = - 1, vec_y = 0\<rparr>
      | TopSide \<Rightarrow> \<lparr>vec_x = 0, vec_y = 1\<rparr>
      | BottomSide \<Rightarrow> \<lparr>vec_x = 0, vec_y = - 1\<rparr>)"

text \<open>The candidate next position of a pass of the loop, before the cushion test.\<close>

definition candidatePos :: "BallTrailPrediction \<Rightarrow> vector \<Rightarrow> vector \<Rightarrow> vector" where
  "candidatePos p v prev =
     vadd prev (vmult (vmult v (frictionCoefficient p)) (predictionStepSize p))"

subsection \<open>A prediction run\<close>

text \<open>
  The launch velocity \<open>calculatePrediction\<close> computes from the cue, and the run of its
  loop from a start position and a launch velocity, after the reset of the trail and
  of the bounce counter.
\<close>

definition launchSpeed :: "cue \<Rightarrow> real" where
  "launchSpeed c = (if isCharging c then getCurrentPower c / 100 * 10 + 2 else 6)"

definition launchVelocity :: "cue \<Rightarrow> vector" where
  "launchVelocity c =
     createVector (cos (angle c + pi) * launchSpeed c) (sin (angle c + pi) * launchSpeed c)"

definition predict :: "BallTrailPrediction \<Rightarrow> table \<Rightarrow> vector \<Rightarrow> vector \<Rightarrow> BallTrailPrediction" where
  "predict p tbl startPos v =
     predictionLoop (p\<lparr>predictionTrail := [], predictionBounces := 0\<rparr>) tbl 0 v startPos"

text \<open>Whether a pass of the loop from velocity \<open>v\<close> at position \<open>cur\<close> bounces.\<close>

definition stepHit :: "BallTrailPrediction \<Rightarrow> table \<Rightarrow> vector \<Rightarrow> vector \<Rightarrow> bool" where
  "stepHit p tbl v cur =
     hit (checkCushionCollision p cur
            (vadd cur (vmult (vmult v (frictionCoefficient p)) (predictionStepSize p))) tbl)"

text \<open>
  The factor between the speeds of two neighbouring samples: friction alone when the
  bounce tally is the same, friction and restitution across a bounce.
\<close>

definition stepFactor :: "BallTrailPrediction \<Rightarrow> sample \<Rightarrow> sample \<Rightarrow> real" where
  "stepFactor p s s' =
     (if bounce s' = bounce s then \<bar>frictionCoefficient p\<bar>
      else \<bar>frictionCoefficient p\<bar> * \<bar>cushionRestitution p\<bar>)"

definition consecutive :: "BallTrailPrediction \<Rightarrow> sample \<Rightarrow> sample \<Rightarrow> bool" where
  "consecutive p s s' \<longleftrightarrow>
     bounce s \<le> bounce s' \<and> bounce s' \<le> bounce s + 1 \<and> 0 \<le> speed s \<and>
     speed s' = stepFactor p s s' * speed s"

text \<open>The invariant of the loop, for the predictor \<open>p\<close> and the current velocity \<open>v\<close>.\<close>

definition trailInv :: "BallTrailPrediction \<Rightarrow> BallTrailPrediction \<Rightarrow> vector \<Rightarrow> bool" where
  "trailInv cfg p v \<longleftrightarrow>
     successively (consecutive cfg) (predictionTrail p) \<and>
     (predictionTrail p \<noteq> [] \<longrightarrow>
        speed (last (predictionTrail p)) = vmag v \<and>
        bounce (last (predictionTrail p)) = predictionBounces p) \<and>
     predictionBounces p \<le> maxBounces p"

definition boundedTrail :: "BallTrailPrediction \<Rightarrow> sample list \<Rightarrow> bool" where
  "boundedTrail p tr \<longleftrightarrow>
     length tr \<le> maxPredictionSteps p \<and>
     (tr \<noteq> [] \<longrightarrow> bounce (last tr) \<le> maxBounces p) \<and>
     (\<forall>i. Suc i < length tr \<longrightarrow> bounce (tr ! i) \<le> bounce (tr ! Suc i))"

definition speedsDecay :: "BallTrailPrediction \<Rightarrow> sample list \<Rightarrow> bool" where
  "speedsDecay p tr \<longleftrightarrow>
     (\<forall>i. Suc i < length tr \<longrightarrow>
        speed (tr ! Suc i) \<le> speed (tr ! i) \<and>
        speed (tr ! Suc i) = stepFactor p (tr ! i) (tr ! Suc i) * speed (tr ! i))"

definition stillTrail :: "sample list \<Rightarrow> bool" where
  "stillTrail tr \<longleftrightarrow> length tr \<le> 1 \<and> list_all (\<lambda>smp. bounce smp = 0) tr"

subsection \<open>Balls around an obstacle\<close>

text \<open>The balls the force pass looks at, in the order it visits them.\<close>

definition allBalls :: "BallManager \<Rightarrow> ball list" where
  "allBalls bm = getCueBall bm # getRedBalls bm @ getColoredBalls bm"

text \<open>The distance from the centre of an obstacle to the body of a ball.\<close>

definition distanceTo :: "obstacle \<Rightarrow> body \<Rightarrow> real" where
  "distanceTo ob bd =
     dist2 (obs_x ob) (obs_y ob) (vec_x (body_position bd)) (vec_y (body_position bd))"

text \<open>
  The point at distance 40 from the centre of the obstacle in the direction of the
  body (the body is not at the centre).
\<close>

definition escapePoint :: "obstacle \<Rightarrow> body \<Rightarrow> vector" where
  "escapePoint ob bd =
     \<lparr>vec_x = obs_x ob + (vec_x (body_position bd) - obs_x ob) / distanceTo ob bd * 40,
      vec_y = obs_y ob + (vec_y (body_position bd) - obs_y ob) / distanceTo ob bd * 40\<rparr>"

text \<open>
  What the force pass makes of a ball \<open>b\<close>, as far as the distance from the obstacle
  goes: a ball without a body is untouched; a body at a positive distance below the
  emergency radius ends at distance 40; any other body keeps its position.
\<close>

definition escapes :: "DynamicObstacles \<Rightarrow> obstacle \<Rightarrow> ball \<Rightarrow> ball \<Rightarrow> bool" where
  "escapes p ob b b' =
     (case ball_body b of
        None \<Rightarrow> b' = b
      | Some bd \<Rightarrow>
          (case ball_body b' of
             None \<Rightarrow> False
           | Some bd' \<Rightarrow>
               if 0 < distanceTo ob bd \<and> distanceTo ob bd < emergencyRadius p
               then distanceTo ob bd' = 40
               else body_position bd' = body_position bd))"

text \<open>
  The same with the place: a body at a positive distance below the emergency radius is
  put on the escape point, with a velocity of magnitude 3; a body at the very centre is
  left as it is; any other body keeps its position.
\<close>

definition teleports :: "DynamicObstacles \<Rightarrow> obstacle \<Rightarrow> ball \<Rightarrow> ball \<Rightarrow> bool" where
  "teleports p ob b b' =
     (case ball_body b of
        None \<Rightarrow> b' = b
      | Some bd \<Rightarrow>
          if 0 < distanceTo ob bd \<and> distanceTo ob bd < emergencyRadius p
          then getPosition b' = escapePoint ob bd \<and> vmag (getVelocity b') = 3
          else if distanceTo ob bd = 0 then b' = b
          else getPosition b' = getPosition b)"

text \<open>
  An obstacle of the game at (600, 300), one tick into its active phase, and a ball
  manager with nothing but a cue ball resting at a given place.
\<close>

definition activeObstacle :: obstacle where
  "activeObstacle =
     \<lparr>obs_x = 600, obs_y = 300, age = 121, maxAge = 480, phase = Active,
      rotationAngle = 121 * 0.08, rotationSpeed = 0.08,
      obs_body = Some \<lparr>rect_x = 600, rect_y = 300, rect_width = 20, rect_height = 50\<rparr>,
      active = True\<rparr>"

definition cueBallAt :: "real \<Rightarrow> real \<Rightarrow> BallManager" where
  "cueBallAt px py =
     \<lparr>redBalls = [], coloredBalls = [],
      cueBall = \<lparr>ball_x = px, ball_y = py,
                 ball_body = Some \<lparr>body_position = \<lparr>vec_x = px, vec_y = py\<rparr>,
                                   body_velocity = \<lparr>vec_x = 0, vec_y = 0\<rparr>\<rparr>\<rparr>,
      ballsMoving = False\<rparr>"

subsection \<open>The life of an obstacle\<close>

text \<open>The obstacle \<open>spawnRandomObstacle\<close> creates at a position.\<close>

definition newObstacle :: "DynamicObstacles \<Rightarrow> vector \<Rightarrow> obstacle" where
  "newObstacle p spawnPos =
     \<lparr>obs_x = vec_x spawnPos, obs_y = vec_y spawnPos,
      age = 0, maxAge = warningTime p + activeTime p + fadeTime p,
      phase = Warning, rotationAngle = 0, rotationSpeed = 0.08,
      obs_body = None, active = False\<rparr>"

text \<open>
  What a pass of the loop of \<open>updateObstacles\<close> makes of the obstacle it visits, and the
  test on which the pass removes it.
\<close>

definition tickObstacle :: "DynamicObstacles \<Rightarrow> obstacle \<Rightarrow> obstacle" where
  "tickObstacle p ob =
     (let ob1 = ob\<lparr>age := age ob + 1\<rparr>;
          ob2 = updateObstaclePhase p ob1
      in ob2\<lparr>rotationAngle := rotationAngle ob2 + rotationSpeed ob2\<rparr>)"

definition expired :: "obstacle \<Rightarrow> bool" where
  "expired ob \<longleftrightarrow> age ob > maxAge ob"

text \<open>
  What is seen of an obstacle: its phase, or nothing once it has been removed. The
  order of the four stages, and the stage that the three age thresholds give.
\<close>

definition stage :: "obstacle \<Rightarrow> phase option" where
  "stage ob = (if expired ob then None else Some (phase ob))"

fun stageRank :: "phase option \<Rightarrow> nat" where
  "stageRank (Some Warning) = 0"
| "stageRank (Some Active) = 1"
| "stageRank (Some Fading) = 2"
| "stageRank None = 3"

definition phaseByAge :: "DynamicObstacles \<Rightarrow> nat \<Rightarrow> phase option" where
  "phaseByAge p n =
     (if n \<le> warningTime p then Some Warning
      else if n \<le> warningTime p + activeTime p then Some Active
      else if n \<le> warningTime p + activeTime p + fadeTime p then Some Fading
      else None)"

text \<open>
  An obstacle as the container holds it: its lifetime is the sum of the three
  durations, it has not expired, and it shows the phase the thresholds give for its
  age.
\<close>

definition aged :: "DynamicObstacles \<Rightarrow> obstacle \<Rightarrow> bool" where
  "aged p ob \<longleftrightarrow>
     maxAge ob = warningTime p + activeTime p + fadeTime p \<and> \<not> expired ob \<and>
     stage ob = phaseByAge p (age ob)"

subsection \<open>Spawn candidates\<close>

text \<open>
  The candidate of the attempt that starts at sample \<open>i\<close> of the random sequence, the
  three tests that reject a candidate, and the random sequences \<open>Math.random()\<close> can
  produce.
\<close>

definition candidateX :: "table \<Rightarrow> (nat \<Rightarrow> real) \<Rightarrow> nat \<Rightarrow> real" where
  "candidateX tbl rnd i =
     p5_random (rnd i) (b_left (getBoundaries tbl) + 80) (b_right (getBoundaries tbl) - 80)"

definition candidateY :: "table \<Rightarrow> (nat \<Rightarrow> real) \<Rightarrow> nat \<Rightarrow> real" where
  "candidateY tbl rnd i =
     p5_random (rnd (i + 1)) (b_top (getBoundaries tbl) + 80) (b_bottom (getBoundaries tbl) - 80)"

definition rejected :: "DynamicObstacles \<Rightarrow> table \<Rightarrow> BallManager \<Rightarrow> real \<Rightarrow> real \<Rightarrow> bool" where
  "rejected p tbl bm px py \<longleftrightarrow>
     isInDZone tbl px py \<or> tooCloseToPockets (getPocketPositions tbl) px py \<or>
     tooCloseToBalls p bm px py"

definition unitSamples :: "(nat \<Rightarrow> real) \<Rightarrow> bool" where
  "unitSamples rnd \<longleftrightarrow> (\<forall>i. 0 \<le> rnd i \<and> rnd i < 1)"

definition insideMargin :: "table \<Rightarrow> real \<Rightarrow> real \<Rightarrow> bool" where
  "insideMargin tbl px py \<longleftrightarrow>
     b_left (getBoundaries tbl) + 80 \<le> px \<and> px \<le> b_right (getBoundaries tbl) - 80 \<and>
     b_top (getBoundaries tbl) + 80 \<le> py \<and> py \<le> b_bottom (getBoundaries tbl) - 80"

text \<open>
  The condition on which an update of an enabled field attempts a spawn: the timer,
  once incremented, has reached the spawn rate, there is room for an obstacle, and no
  ball is moving.
\<close>

definition spawnDue :: "DynamicObstacles \<Rightarrow> BallManager \<Rightarrow> bool" where
  "spawnDue p bm \<longleftrightarrow>
     spawnRate p \<le> spawnTimer p + 1 \<and> length (obstacles p) < maxObstacles p \<and>
     \<not> areBallsMoving bm"

subsection \<open>The states of the obstacle field\<close>

text \<open>
  The states the field can be in on a table: it is constructed, and from then on
  updated once per frame with some ball manager and some random samples, or enabled,
  disabled or toggled.
\<close>

inductive reachable :: "table \<Rightarrow> DynamicObstacles \<Rightarrow> bool" for tbl :: table where
  constructed: "reachable tbl DynamicObstacles_new"
| updated: "reachable tbl p \<Longrightarrow> unitSamples rnd \<Longrightarrow>
            update p tbl bm rnd idx = Inr (p', bm', idx') \<Longrightarrow> reachable tbl p'"
| enabled: "reachable tbl p \<Longrightarrow> reachable tbl (enable p)"
| disabled: "reachable tbl p \<Longrightarrow> disable p = Inr p' \<Longrightarrow> reachable tbl p'"
| toggled: "reachable tbl p \<Longrightarrow> toggle p = Inr p' \<Longrightarrow> reachable tbl p'"

text \<open>
  The state one update after 419 idle updates of the freshly constructed field, when
  the samples drawn are all 1/2 and the candidate is the middle of the table.
\<close>

definition firstSpawned :: DynamicObstacles where
  "firstSpawned =
     DynamicObstacles_new
       \<lparr>obstacles := [\<lparr>obs_x = 600, obs_y = 300, age = 1, maxAge = 480, phase = Warning,
                       rotationAngle = 0.08, rotationSpeed = 0.08, obs_body = None,
                       active = False\<rparr>]\<rparr>"


section \<open>Properties of the trajectory predictor\<close>

declare predictionLoop.simps [simp del]

subsection \<open>The cushion test\<close>

lemma crosses_some_iff:
  "(\<exists>s. crosses p tbl prev cand s) \<longleftrightarrow>
   crosses p tbl prev cand LeftSide \<or> crosses p tbl prev cand RightSide \<or>
   crosses p tbl prev cand TopSide \<or> crosses p tbl prev cand BottomSide"
  by (metis side.exhaust)

lemma hit_iff_crosses:
  "hit (checkCushionCollision p prev cand tbl) \<longleftrightarrow> (\<exists>s. crosses p tbl prev cand s)"
  unfolding crosses_some_iff
  by (auto simp: checkCushionCollision_def crosses_def insetBound_def getBoundaries_def Let_def)

lemma collision_by_first_crossing:
  "(case firstCrossing p tbl prev cand of
      None \<Rightarrow> checkCushionCollision p prev cand tbl =
               \<lparr>hit = False, hitPoint = cand, normal = createVector 0 0\<rparr>
    | Some s \<Rightarrow> hit (checkCushionCollision p prev cand tbl) \<and>
               hitPoint (checkCushionCollision p prev cand tbl) =
                 clampTo s (insetBound p tbl s) cand \<and>
               normal (checkCushionCollision p prev cand tbl) = inwardNormal s)"
  by (auto simp: firstCrossing_def checkCushionCollision_def crosses_def insetBound_def
      getBoundaries_def Let_def clampTo_def createVector_def inwardNormal_def)

lemma opposite_sides_exclusive:
  "\<not> (crosses p tbl prev cand LeftSide \<and> crosses p tbl prev cand RightSide) \<and>
   \<not> (crosses p tbl prev cand TopSide \<and> crosses p tbl prev cand BottomSide)"
  by (auto simp: crosses_def insetBound_def)

lemma step_position:
  "snd (snd (predictionStep p tbl v prev)) =
     hitPoint (checkCushionCollision p prev (candidatePos p v prev) tbl)"
  by (simp add: predictionStep_def Let_def candidatePos_def checkCushionCollision_def)

lemma step_bounces:
  "predictionBounces (fst (predictionStep p tbl v cur)) =
     predictionBounces p + (if stepHit p tbl v cur then 1 else 0)"
  by (simp add: predictionStep_def Let_def stepHit_def)

lemma stepHit_iff_crosses:
  "stepHit p tbl v prev \<longleftrightarrow> (\<exists>s. crosses p tbl prev (candidatePos p v prev) s)"
  by (simp add: stepHit_def candidatePos_def hit_iff_crosses)

text \<open>
  C1. In a pass of the prediction loop the cushion test reports a hit exactly when, for
  one of the four inset edges, the previous position is strictly inside it and the
  candidate is on it or beyond. The four tests are chained: the result is that of the
  first edge crossed in the order left, right, top, bottom, so one axis at most is
  resolved in a pass, also when a horizontal and a vertical edge are crossed together
  (the two horizontal tests cannot both hold, nor the two vertical ones). The collision
  point is the candidate with the crossed coordinate replaced by the inset edge and the
  other coordinate kept; without a crossing it is the candidate. The position a pass
  records is this point, and the pass adds one bounce exactly when an edge is crossed.
\<close>

theorem cushion_crossing_first_match:
  "(hit (checkCushionCollision p prev cand tbl) \<longleftrightarrow> (\<exists>s. crosses p tbl prev cand s)) \<and>
   (case firstCrossing p tbl prev cand of
      None \<Rightarrow> checkCushionCollision p prev cand tbl =
               \<lparr>hit = False, hitPoint = cand, normal = createVector 0 0\<rparr>
    | Some s \<Rightarrow> hit (checkCushionCollision p prev cand tbl) \<and>
               hitPoint (checkCushionCollision p prev cand tbl) =
                 clampTo s (insetBound p tbl s) cand \<and>
               normal (checkCushionCollision p prev cand tbl) = inwardNormal s) \<and>
   \<not> (crosses p tbl prev cand LeftSide \<and> crosses p tbl prev cand RightSide) \<and>
   \<not> (crosses p tbl prev cand TopSide \<and> crosses p tbl prev cand BottomSide) \<and>
   snd (snd (predictionStep p tbl v prev)) =
     hitPoint (checkCushionCollision p prev (candidatePos p v prev) tbl) \<and>
   predictionBounces (fst (predictionStep p tbl v prev)) =
     predictionBounces p + (if \<exists>s. crosses p tbl prev (candidatePos p v prev) s then 1 else 0)"
  using hit_iff_crosses[of p prev cand tbl] collision_by_first_crossing[of p prev cand tbl]
    opposite_sides_exclusive[of p tbl prev cand] step_position[of p tbl v prev]
    step_bounces[of p tbl v prev] stepHit_iff_crosses[of p tbl v prev]
  by simp

text \<open>
  A corner: from (120, 70) to the candidate (118, 68) on the game's table both the left
  and the top inset edge (at 2141/18 and 1241/18) are crossed; the left one is resolved
  and the candidate keeps its second coordinate.
\<close>

theorem cushion_crossing_first_match_witness:
  "crosses BallTrailPrediction_new Table_new \<lparr>vec_x = 120, vec_y = 70\<rparr>
     \<lparr>vec_x = 118, vec_y = 68\<rparr> LeftSide \<and>
   crosses BallTrailPrediction_new Table_new \<lparr>vec_x = 120, vec_y = 70\<rparr>
     \<lparr>vec_x = 118, vec_y = 68\<rparr> TopSide \<and>
   hit (checkCushionCollision BallTrailPrediction_new \<lparr>vec_x = 120, vec_y = 70\<rparr>
          \<lparr>vec_x = 118, vec_y = 68\<rparr> Table_new) \<and>
   hitPoint (checkCushionCollision BallTrailPrediction_new \<lparr>vec_x = 120, vec_y = 70\<rparr>
          \<lparr>vec_x = 118, vec_y = 68\<rparr> Table_new) = \<lparr>vec_x = 2141 / 18, vec_y = 68\<rparr>"
proof -
  let ?prev = "\<lparr>vec_x = 120, vec_y = 70\<rparr>" and ?cand = "\<lparr>vec_x = 118, vec_y = 68\<rparr>"
  have bounds: "insetBound BallTrailPrediction_new Table_new LeftSide = 2141 / 18"
    "insetBound BallTrailPrediction_new Table_new TopSide = 1241 / 18"
    by (simp_all add: insetBound_def BallTrailPrediction_new_def Table_new_def)
  have l: "crosses BallTrailPrediction_new Table_new ?prev ?cand LeftSide"
    and t: "crosses BallTrailPrediction_new Table_new ?prev ?cand TopSide"
    by (simp_all add: crosses_def bounds)
  have f: "firstCrossing BallTrailPrediction_new Table_new ?prev ?cand = Some LeftSide"
    using l by (simp add: firstCrossing_def)
  have "hit (checkCushionCollision BallTrailPrediction_new ?prev ?cand Table_new) \<and>
        hitPoint (checkCushionCollision BallTrailPrediction_new ?prev ?cand Table_new) =
          clampTo LeftSide (insetBound BallTrailPrediction_new Table_new LeftSide) ?cand \<and>
        normal (checkCushionCollision BallTrailPrediction_new ?prev ?cand Table_new) =
          inwardNormal LeftSide"
    using cushion_crossing_first_match[of BallTrailPrediction_new ?prev ?cand Table_new,
        THEN conjunct2, THEN conjunct1]
    by (simp add: f)
  then show ?thesis
    using l t by (simp add: clampTo_def bounds)
qed

subsection \<open>The guard\<close>

lemma calculatePrediction_skip:
  "\<not> bt_enabled p \<or> ball_body cb = None \<or> \<not> isVisible c \<Longrightarrow>
   calculatePrediction p cb c tbl = Inr (p\<lparr>predictionTrail := []\<rparr>)"
  by (simp add: calculatePrediction_def)

lemma vector_eta: "\<lparr>vec_x = vec_x v, vec_y = vec_y v\<rparr> = v"
  by (cases v) simp

lemma calculatePrediction_run:
  "\<not> (\<not> bt_enabled p \<or> ball_body cb = None \<or> \<not> isVisible c) \<Longrightarrow>
   calculatePrediction p cb c tbl =
     Inr (predict p tbl (getPosition cb) (launchVelocity c))"
  by (auto simp: calculatePrediction_def Let_def predict_def launchVelocity_def launchSpeed_def
      p5_map_def js_div_def bind_result_def createVector_def vector_eta)

text \<open>
  C9. When the predictor is disabled, or the cue ball has no physics body, or the cue is
  not visible, \<open>calculatePrediction\<close> returns with the trail set to the empty sequence,
  whatever the trail held before.
\<close>

theorem guard_clears_trail:
  "\<not> bt_enabled p \<or> ball_body cb = None \<or> \<not> isVisible c \<Longrightarrow>
   map_sum id predictionTrail (calculatePrediction p cb c tbl) = Inr []"
  by (simp add: calculatePrediction_skip)

theorem guard_clears_trail_witness:
  "map_sum id predictionTrail
     (calculatePrediction
        (BallTrailPrediction_new\<lparr>bt_enabled := False,
           predictionTrail := [\<lparr>sample_x = 1, sample_y = 2, bounce = 3, speed = 4\<rparr>]\<rparr>)
        \<lparr>ball_x = 300, ball_y = 300,
         ball_body = Some \<lparr>body_position = \<lparr>vec_x = 300, vec_y = 300\<rparr>,
                           body_velocity = \<lparr>vec_x = 0, vec_y = 0\<rparr>\<rparr>\<rparr>
        \<lparr>angle = 0, cue_visible = True, power = 0, charging = False\<rparr> Table_new) = Inr []"
  using guard_clears_trail[of
      "BallTrailPrediction_new\<lparr>bt_enabled := False,
           predictionTrail := [\<lparr>sample_x = 1, sample_y = 2, bounce = 3, speed = 4\<rparr>]\<rparr>"
      "\<lparr>ball_x = 300, ball_y = 300,
         ball_body = Some \<lparr>body_position = \<lparr>vec_x = 300, vec_y = 300\<rparr>,
                           body_velocity = \<lparr>vec_x = 0, vec_y = 0\<rparr>\<rparr>\<rparr>"
      "\<lparr>angle = 0, cue_visible = True, power = 0, charging = False\<rparr>" Table_new]
  by (simp add: BallTrailPrediction_new_def)

subsection \<open>One pass of the loop\<close>

lemma vmag_vmult: "vmag (vmult v k) = \<bar>k\<bar> * vmag v"
proof -
  have "vec_x v * k * (vec_x v * k) + vec_y v * k * (vec_y v * k)
        = (k * k) * (vec_x v * vec_x v + vec_y v * vec_y v)"
    by (simp add: algebra_simps)
  then show ?thesis
    by (simp add: vmag_def vmult_def real_sqrt_mult)
qed

lemma vmag_nonneg: "0 \<le> vmag v"
  by (simp add: vmag_def)

lemma vmag_zero: "vmag v = 0 \<longleftrightarrow> vec_x v = 0 \<and> vec_y v = 0"
  by (simp add: vmag_def)

lemma vmag_axis: "vmag \<lparr>vec_x = a, vec_y = 0\<rparr> = \<bar>a\<bar>"
  by (simp add: vmag_def)

lemma vmag_reflect_hit:
  "hit (checkCushionCollision p cur nxt tbl) \<Longrightarrow>
   vmag (reflectVelocity v (normal (checkCushionCollision p cur nxt tbl))) = vmag v"
  by (auto simp: checkCushionCollision_def Let_def reflectVelocity_def vmag_def vsub_def
      vmult_def vdot_def createVector_def split: if_splits)

lemma step_velocity:
  "vmag (fst (snd (predictionStep p tbl v cur))) =
     (if stepHit p tbl v cur then \<bar>frictionCoefficient p\<bar> * \<bar>cushionRestitution p\<bar>
      else \<bar>frictionCoefficient p\<bar>) * vmag v"
  by (simp add: predictionStep_def Let_def stepHit_def vmag_vmult vmag_reflect_hit)

lemma step_trail:
  "predictionTrail (fst (predictionStep p tbl v cur)) =
     predictionTrail p @
       [\<lparr>sample_x = vec_x (snd (snd (predictionStep p tbl v cur))),
         sample_y = vec_y (snd (snd (predictionStep p tbl v cur))),
         bounce = predictionBounces (fst (predictionStep p tbl v cur)),
         speed = vmag (fst (snd (predictionStep p tbl v cur)))\<rparr>]"
  by (simp add: predictionStep_def Let_def)

lemma step_config:
  "maxPredictionSteps (fst (predictionStep p tbl v cur)) = maxPredictionSteps p"
  "maxBounces (fst (predictionStep p tbl v cur)) = maxBounces p"
  "speedThreshold (fst (predictionStep p tbl v cur)) = speedThreshold p"
  "frictionCoefficient (fst (predictionStep p tbl v cur)) = frictionCoefficient p"
  "cushionRestitution (fst (predictionStep p tbl v cur)) = cushionRestitution p"
  by (simp_all add: predictionStep_def Let_def)

lemma consecutive_cong_cfg:
  "frictionCoefficient q = frictionCoefficient p \<Longrightarrow>
   cushionRestitution q = cushionRestitution p \<Longrightarrow> consecutive q = consecutive p"
  by (intro ext) (simp add: consecutive_def stepFactor_def)

lemma step_inv:
  assumes "trailInv p p v" and "predictionBounces p < maxBounces p"
  shows "trailInv (fst (predictionStep p tbl v cur)) (fst (predictionStep p tbl v cur))
           (fst (snd (predictionStep p tbl v cur)))"
proof -
  let ?r = "predictionStep p tbl v cur"
  have cc: "consecutive (fst ?r) = consecutive p"
    by (rule consecutive_cong_cfg) (simp_all add: step_config)
  have link: "predictionTrail p \<noteq> [] \<Longrightarrow>
      consecutive p (last (predictionTrail p))
        \<lparr>sample_x = vec_x (snd (snd ?r)), sample_y = vec_y (snd (snd ?r)),
         bounce = predictionBounces (fst ?r), speed = vmag (fst (snd ?r))\<rparr>"
    using assms(1)
    by (simp add: trailInv_def consecutive_def stepFactor_def step_bounces step_velocity
        vmag_nonneg)
  have s: "successively (consecutive p) (predictionTrail (fst ?r))"
    using assms(1) link
    by (subst step_trail) (auto simp: successively_append_iff trailInv_def)
  have b: "predictionBounces (fst ?r) \<le> maxBounces (fst ?r)"
    using assms(2) by (simp add: step_bounces step_config)
  have l: "speed (last (predictionTrail (fst ?r))) = vmag (fst (snd ?r)) \<and>
           bounce (last (predictionTrail (fst ?r))) = predictionBounces (fst ?r)"
    by (subst (1 2) step_trail) simp
  show ?thesis
    unfolding trailInv_def cc using s b l by simp
qed

subsection \<open>The loop\<close>

lemma loop_exit:
  "\<not> (step < maxPredictionSteps p \<and> predictionBounces p < maxBounces p) \<Longrightarrow>
   predictionLoop p tbl step v cur = p"
  by (subst predictionLoop.simps) (rule if_not_P)

lemma loop_stop:
  "step < maxPredictionSteps p \<and> predictionBounces p < maxBounces p \<Longrightarrow>
   vmag (fst (snd (predictionStep p tbl v cur))) < speedThreshold (fst (predictionStep p tbl v cur)) \<Longrightarrow>
   predictionLoop p tbl step v cur = fst (predictionStep p tbl v cur)"
  by (subst predictionLoop.simps) (simp only: if_P Let_def)

lemma loop_go:
  "step < maxPredictionSteps p \<and> predictionBounces p < maxBounces p \<Longrightarrow>
   \<not> vmag (fst (snd (predictionStep p tbl v cur))) < speedThreshold (fst (predictionStep p tbl v cur)) \<Longrightarrow>
   predictionLoop p tbl step v cur =
     predictionLoop (fst (predictionStep p tbl v cur)) tbl (step + 1)
       (fst (snd (predictionStep p tbl v cur))) (snd (snd (predictionStep p tbl v cur)))"
  by (subst predictionLoop.simps) (simp only: if_P if_False Let_def)

lemma loop_inv:
  "trailInv p p v \<Longrightarrow>
   (let q = predictionLoop p tbl step v cur in
      successively (consecutive p) (predictionTrail q) \<and>
      (predictionTrail q \<noteq> [] \<longrightarrow> bounce (last (predictionTrail q)) = predictionBounces q) \<and>
      predictionBounces q \<le> maxBounces p \<and>
      length (predictionTrail q) \<le> length (predictionTrail p) + (maxPredictionSteps p - step))"
proof (induction p tbl step v cur rule: predictionLoop.induct)
  case (1 p tbl step velocity currentPos)
  let ?r = "predictionStep p tbl velocity currentPos"
  show ?case
  proof (cases "step < maxPredictionSteps p \<and> predictionBounces p < maxBounces p")
    case False
    then have "predictionLoop p tbl step velocity currentPos = p"
      by (rule loop_exit)
    with "1.prems" show ?thesis by (simp add: trailInv_def)
  next
    case True
    have inv': "trailInv (fst ?r) (fst ?r) (fst (snd ?r))"
      using step_inv[OF "1.prems"] True by simp
    have cc: "consecutive (fst ?r) = consecutive p"
      by (rule consecutive_cong_cfg) (simp_all add: step_config)
    have len: "length (predictionTrail (fst ?r)) = length (predictionTrail p) + 1"
      by (subst step_trail) simp
    show ?thesis
    proof (cases "vmag (fst (snd ?r)) < speedThreshold (fst ?r)")
      case stop: True
      have "predictionLoop p tbl step velocity currentPos = fst ?r"
        using True stop by (rule loop_stop)
      then show ?thesis
        using inv' True len by (auto simp: trailInv_def cc step_config)
    next
      case go: False
      have eq: "predictionLoop p tbl step velocity currentPos =
                predictionLoop (fst ?r) tbl (step + 1) (fst (snd ?r)) (snd (snd ?r))"
        using True go by (rule loop_go)
      have ih: "let q = predictionLoop (fst ?r) tbl (step + 1) (fst (snd ?r)) (snd (snd ?r)) in
          successively (consecutive (fst ?r)) (predictionTrail q) \<and>
          (predictionTrail q \<noteq> [] \<longrightarrow> bounce (last (predictionTrail q)) = predictionBounces q) \<and>
          predictionBounces q \<le> maxBounces (fst ?r) \<and>
          length (predictionTrail q)
            \<le> length (predictionTrail (fst ?r)) + (maxPredictionSteps (fst ?r) - (step + 1))"
        using "1.IH"[OF True refl refl refl refl go inv'] .
      show ?thesis
        using ih True unfolding eq Let_def cc len step_config by auto
    qed
  qed
qed

lemma successively_nth:
  "successively P xs \<Longrightarrow> Suc i < length xs \<Longrightarrow> P (xs ! i) (xs ! Suc i)"
  by (induction P xs arbitrary: i rule: successively.induct)
     (auto simp: nth_Cons split: nat.splits)

lemma predict_props:
  "successively (consecutive p) (predictionTrail (predict p tbl s v)) \<and>
   (predictionTrail (predict p tbl s v) \<noteq> [] \<longrightarrow>
      bounce (last (predictionTrail (predict p tbl s v))) = predictionBounces (predict p tbl s v)) \<and>
   predictionBounces (predict p tbl s v) \<le> maxBounces p \<and>
   length (predictionTrail (predict p tbl s v)) \<le> maxPredictionSteps p"
proof -
  let ?p0 = "p\<lparr>predictionTrail := [], predictionBounces := 0\<rparr>"
  have inv0: "trailInv ?p0 ?p0 v" by (simp add: trailInv_def)
  have cc: "consecutive ?p0 = consecutive p"
    by (rule consecutive_cong_cfg) simp_all
  show ?thesis
    using loop_inv[OF inv0, of tbl 0 s] by (simp add: predict_def Let_def cc)
qed

text \<open>
  A short run on the game's table, used below: from (1080, 300) with launch velocity
  (0.42, 0) the ball passes one sample, bounces off the right cushion, and stops after
  two more samples.
\<close>

lemma example_run:
  "predictionTrail (predict BallTrailPrediction_new Table_new
      \<lparr>vec_x = 1080, vec_y = 300\<rparr> \<lparr>vec_x = 0.42, vec_y = 0\<rparr>) =
   [\<lparr>sample_x = 1080 + 0.42 * 0.985 * 2, sample_y = 300, bounce = 0, speed = 0.42 * 0.985\<rparr>,
    \<lparr>sample_x = 19459 / 18, sample_y = 300, bounce = 1, speed = 0.42 * 0.985 * 0.985 * 0.75\<rparr>,
    \<lparr>sample_x = 19459 / 18 - 0.42 * 0.985 * 0.985 * 0.985 * 0.75 * 2, sample_y = 300, bounce = 1,
      speed = 0.42 * 0.985 * 0.985 * 0.985 * 0.75\<rparr>,
    \<lparr>sample_x = 19459 / 18 - 0.42 * 0.985 * 0.985 * 0.985 * 0.75 * 2 - 0.42 * 0.985 * 0.985 * 0.985 * 0.985 * 0.75 * 2,
      sample_y = 300, bounce = 1, speed = 0.42 * 0.985 * 0.985 * 0.985 * 0.985 * 0.75\<rparr>]"
  by (simp add: predict_def predictionLoop.simps predictionStep_def checkCushionCollision_def
      getBoundaries_def reflectVelocity_def vmult_def vadd_def vsub_def vdot_def
      createVector_def vmag_axis BallTrailPrediction_new_def Table_new_def Let_def)

subsection \<open>Bounds on a prediction\<close>

lemma predict_bounded: "boundedTrail p (predictionTrail (predict p tbl s v))"
  using predict_props[of p tbl s v] successively_nth[of "consecutive p"]
  by (fastforce simp: boundedTrail_def consecutive_def)

text \<open>
  C2. Every prediction, from any start position, launch velocity and table, and every
  call of \<open>calculatePrediction\<close>, leaves a trail of at most \<open>maxPredictionSteps\<close> samples
  (300 as constructed), whose last sample has a bounce tally of at most \<open>maxBounces\<close>
  (5 as constructed), and along which the bounce tally never decreases from a sample
  to the next.
\<close>

theorem prediction_bounded:
  "boundedTrail p (predictionTrail (predict p tbl startPos v)) \<and>
   (\<exists>q. calculatePrediction p cb c tbl = Inr q \<and> boundedTrail p (predictionTrail q))"
proof (cases "\<not> bt_enabled p \<or> ball_body cb = None \<or> \<not> isVisible c")
  case True
  then show ?thesis
    by (simp add: calculatePrediction_skip predict_bounded) (simp add: boundedTrail_def)
next
  case False
  then show ?thesis
    by (simp only: calculatePrediction_run predict_bounded simp_thms sum.inject)
qed

theorem prediction_bounded_witness:
  "map bounce (predictionTrail (predict BallTrailPrediction_new Table_new
      \<lparr>vec_x = 1080, vec_y = 300\<rparr> \<lparr>vec_x = 0.42, vec_y = 0\<rparr>)) = [0, 1, 1, 1] \<and>
   length (predictionTrail (predict BallTrailPrediction_new Table_new
      \<lparr>vec_x = 1080, vec_y = 300\<rparr> \<lparr>vec_x = 0.42, vec_y = 0\<rparr>)) \<le> 300 \<and>
   bounce (last (predictionTrail (predict BallTrailPrediction_new Table_new
      \<lparr>vec_x = 1080, vec_y = 300\<rparr> \<lparr>vec_x = 0.42, vec_y = 0\<rparr>))) \<le> 5 \<and>
   bounce (predictionTrail (predict BallTrailPrediction_new Table_new
      \<lparr>vec_x = 1080, vec_y = 300\<rparr> \<lparr>vec_x = 0.42, vec_y = 0\<rparr>) ! 0)
     \<le> bounce (predictionTrail (predict BallTrailPrediction_new Table_new
      \<lparr>vec_x = 1080, vec_y = 300\<rparr> \<lparr>vec_x = 0.42, vec_y = 0\<rparr>) ! Suc 0)"
proof -
  let ?tr = "predictionTrail (predict BallTrailPrediction_new Table_new
      \<lparr>vec_x = 1080, vec_y = 300\<rparr> \<lparr>vec_x = 0.42, vec_y = 0\<rparr>)"
  have run: "map bounce ?tr = [0, 1, 1, 1]" "?tr \<noteq> []" "Suc 0 < length ?tr"
    unfolding example_run by simp_all
  have b: "boundedTrail BallTrailPrediction_new ?tr"
    using prediction_bounded[of BallTrailPrediction_new Table_new
        "\<lparr>vec_x = 1080, vec_y = 300\<rparr>" "\<lparr>vec_x = 0.42, vec_y = 0\<rparr>"]
    by (rule conjunct1)
  have "length ?tr \<le> 300" "bounce (last ?tr) \<le> 5"
    using b run(2) by (simp_all add: boundedTrail_def BallTrailPrediction_new_def)
  moreover have "bounce (?tr ! 0) \<le> bounce (?tr ! Suc 0)"
    using b run(3) unfolding boundedTrail_def by blast
  ultimately show ?thesis using run(1) by simp
qed

subsection \<open>Speeds along a prediction\<close>

lemma consecutive_le:
  assumes "\<bar>frictionCoefficient p\<bar> \<le> 1" "\<bar>cushionRestitution p\<bar> \<le> 1" "consecutive p s s'"
  shows "speed s' \<le> speed s"
proof -
  have "\<bar>frictionCoefficient p\<bar> * \<bar>cushionRestitution p\<bar> \<le> 1 * 1"
    using assms(1,2) by (intro mult_mono) simp_all
  then have "stepFactor p s s' \<le> 1"
    using assms(1) by (simp add: stepFactor_def)
  moreover have "0 \<le> speed s" using assms(3) by (simp add: consecutive_def)
  ultimately have "stepFactor p s s' * speed s \<le> 1 * speed s"
    by (intro mult_right_mono)
  then show ?thesis using assms(3) by (simp add: consecutive_def)
qed

lemma predict_decay:
  assumes "\<bar>frictionCoefficient p\<bar> \<le> 1" "\<bar>cushionRestitution p\<bar> \<le> 1"
  shows "speedsDecay p (predictionTrail (predict p tbl s v))"
  unfolding speedsDecay_def
proof (intro allI impI)
  fix i assume "Suc i < length (predictionTrail (predict p tbl s v))"
  then have c: "consecutive p (predictionTrail (predict p tbl s v) ! i)
                  (predictionTrail (predict p tbl s v) ! Suc i)"
    using predict_props[of p tbl s v] by (simp add: successively_nth)
  show "speed (predictionTrail (predict p tbl s v) ! Suc i)
          \<le> speed (predictionTrail (predict p tbl s v) ! i) \<and>
        speed (predictionTrail (predict p tbl s v) ! Suc i) =
          stepFactor p (predictionTrail (predict p tbl s v) ! i)
            (predictionTrail (predict p tbl s v) ! Suc i) *
          speed (predictionTrail (predict p tbl s v) ! i)"
    using consecutive_le[OF assms c] c by (simp add: consecutive_def)
qed

text \<open>
  C3. With a friction factor and a restitution of magnitude at most one (0.985 and
  0.75 as constructed), the recorded speed never increases from a sample to the next,
  in every prediction and every call of \<open>calculatePrediction\<close>: between two samples
  with the same bounce tally it is multiplied by the friction factor, across a bounce by
  the friction factor and the restitution.
\<close>

theorem speed_never_increases:
  assumes "\<bar>frictionCoefficient p\<bar> \<le> 1" "\<bar>cushionRestitution p\<bar> \<le> 1"
  shows "speedsDecay p (predictionTrail (predict p tbl startPos v)) \<and>
   (\<exists>q. calculatePrediction p cb c tbl = Inr q \<and> speedsDecay p (predictionTrail q))"
proof (cases "\<not> bt_enabled p \<or> ball_body cb = None \<or> \<not> isVisible c")
  case True
  then show ?thesis
    by (simp add: calculatePrediction_skip predict_decay[OF assms]) (simp add: speedsDecay_def)
next
  case False
  then show ?thesis
    by (simp only: calculatePrediction_run predict_decay[OF assms] simp_thms sum.inject)
qed

theorem speed_never_increases_witness:
  "map speed (predictionTrail (predict BallTrailPrediction_new Table_new
      \<lparr>vec_x = 1080, vec_y = 300\<rparr> \<lparr>vec_x = 0.42, vec_y = 0\<rparr>)) =
     [0.4137, 0.305620875, 0.301036561875, 0.296521013446875] \<and>
   speed (predictionTrail (predict BallTrailPrediction_new Table_new
      \<lparr>vec_x = 1080, vec_y = 300\<rparr> \<lparr>vec_x = 0.42, vec_y = 0\<rparr>) ! Suc 0)
     \<le> speed (predictionTrail (predict BallTrailPrediction_new Table_new
      \<lparr>vec_x = 1080, vec_y = 300\<rparr> \<lparr>vec_x = 0.42, vec_y = 0\<rparr>) ! 0) \<and>
   speed (predictionTrail (predict BallTrailPrediction_new Table_new
      \<lparr>vec_x = 1080, vec_y = 300\<rparr> \<lparr>vec_x = 0.42, vec_y = 0\<rparr>) ! Suc 1)
     \<le> speed (predictionTrail (predict BallTrailPrediction_new Table_new
      \<lparr>vec_x = 1080, vec_y = 300\<rparr> \<lparr>vec_x = 0.42, vec_y = 0\<rparr>) ! 1)"
proof -
  let ?tr = "predictionTrail (predict BallTrailPrediction_new Table_new
      \<lparr>vec_x = 1080, vec_y = 300\<rparr> \<lparr>vec_x = 0.42, vec_y = 0\<rparr>)"
  have run: "map speed ?tr = [0.4137, 0.305620875, 0.301036561875, 0.296521013446875]"
    "Suc 0 < length ?tr" "Suc 1 < length ?tr"
    unfolding example_run by simp_all
  have cfg: "\<bar>frictionCoefficient BallTrailPrediction_new\<bar> \<le> 1"
    "\<bar>cushionRestitution BallTrailPrediction_new\<bar> \<le> 1"
    by (simp_all add: BallTrailPrediction_new_def)
  have d: "speedsDecay BallTrailPrediction_new ?tr"
    using speed_never_increases[OF cfg, of Table_new
        "\<lparr>vec_x = 1080, vec_y = 300\<rparr>" "\<lparr>vec_x = 0.42, vec_y = 0\<rparr>"]
    by (rule conjunct1)
  have "speed (?tr ! Suc 0) \<le> speed (?tr ! 0)" "speed (?tr ! Suc 1) \<le> speed (?tr ! 1)"
    using d run(2,3) unfolding speedsDecay_def by blast+
  then show ?thesis using run(1) by simp
qed

subsection \<open>A launch at rest\<close>

lemma zero_step:
  assumes "vmag v = 0"
  shows "predictionStep p tbl v cur =
     (p\<lparr>predictionTrail := predictionTrail p @
          [\<lparr>sample_x = vec_x cur, sample_y = vec_y cur, bounce = predictionBounces p, speed = 0\<rparr>]\<rparr>,
      \<lparr>vec_x = 0, vec_y = 0\<rparr>, \<lparr>vec_x = vec_x cur, vec_y = vec_y cur\<rparr>)"
  using assms
  by (simp add: vmag_zero predictionStep_def Let_def checkCushionCollision_def vmult_def vadd_def
      vmag_def)

lemma predict_zero:
  assumes "vmag v = 0" "0 < speedThreshold p"
  shows "stillTrail (predictionTrail (predict p tbl s v)) \<and> predictionBounces (predict p tbl s v) = 0"
proof -
  let ?p0 = "p\<lparr>predictionTrail := [], predictionBounces := 0\<rparr>"
  show ?thesis
  proof (cases "0 < maxPredictionSteps ?p0 \<and> predictionBounces ?p0 < maxBounces ?p0")
    case False
    then have "predict p tbl s v = ?p0"
      unfolding predict_def by (rule loop_exit)
    then show ?thesis by (simp add: stillTrail_def)
  next
    case True
    have "vmag (fst (snd (predictionStep ?p0 tbl v s))) < speedThreshold (fst (predictionStep ?p0 tbl v s))"
      using assms by (simp add: zero_step vmag_def)
    then have "predict p tbl s v = fst (predictionStep ?p0 tbl v s)"
      unfolding predict_def using True by (intro loop_stop)
    then show ?thesis using assms(1) by (simp add: zero_step stillTrail_def)
  qed
qed

text \<open>
  C4. With a positive speed threshold (0.3 as constructed), a launch velocity of
  magnitude zero gives, from any start position and on any table, a trail of at most
  one sample, no sample of which has a bounce, and a bounce counter of zero; the same
  holds for the trail that \<open>calculatePrediction\<close> leaves when the launch velocity it
  computes from the cue has magnitude zero.
\<close>

theorem zero_launch_stays:
  assumes "0 < speedThreshold p"
  shows "(vmag v = 0 \<longrightarrow>
            stillTrail (predictionTrail (predict p tbl startPos v)) \<and>
            predictionBounces (predict p tbl startPos v) = 0) \<and>
         (vmag (launchVelocity c) = 0 \<longrightarrow>
            (\<exists>q. calculatePrediction p cb c tbl = Inr q \<and> stillTrail (predictionTrail q)))"
proof (cases "\<not> bt_enabled p \<or> ball_body cb = None \<or> \<not> isVisible c")
  case True
  then show ?thesis
    using predict_zero[OF _ assms, of v tbl startPos]
    by (simp add: calculatePrediction_skip) (simp add: stillTrail_def)
next
  case False
  show ?thesis
    using predict_zero[OF _ assms, of v tbl startPos]
      predict_zero[OF _ assms, of "launchVelocity c" tbl "getPosition cb"]
    by (simp only: calculatePrediction_run[OF False] sum.inject simp_thms) simp
qed

theorem zero_launch_stays_witness:
  "length (predictionTrail (predict BallTrailPrediction_new Table_new
      \<lparr>vec_x = 300, vec_y = 300\<rparr> \<lparr>vec_x = 0, vec_y = 0\<rparr>)) \<le> 1 \<and>
   predictionBounces (predict BallTrailPrediction_new Table_new
      \<lparr>vec_x = 300, vec_y = 300\<rparr> \<lparr>vec_x = 0, vec_y = 0\<rparr>) = 0 \<and>
   (\<exists>q. calculatePrediction BallTrailPrediction_new
          \<lparr>ball_x = 300, ball_y = 300,
           ball_body = Some \<lparr>body_position = \<lparr>vec_x = 300, vec_y = 300\<rparr>,
                             body_velocity = \<lparr>vec_x = 0, vec_y = 0\<rparr>\<rparr>\<rparr>
          \<lparr>angle = 0, cue_visible = True, power = - 20, charging = True\<rparr> Table_new = Inr q \<and>
        length (predictionTrail q) \<le> 1)"
proof -
  have thr: "0 < speedThreshold BallTrailPrediction_new"
    by (simp add: BallTrailPrediction_new_def)
  have v0: "vmag \<lparr>vec_x = 0, vec_y = 0\<rparr> = 0"
    by (simp add: vmag_def)
  have l0: "vmag (launchVelocity \<lparr>angle = 0, cue_visible = True, power = - 20, charging = True\<rparr>) = 0"
    by (simp add: launchVelocity_def launchSpeed_def isCharging_def getCurrentPower_def
        createVector_def vmag_def)
  show ?thesis
    using zero_launch_stays[OF thr, of "\<lparr>vec_x = 0, vec_y = 0\<rparr>" Table_new
        "\<lparr>vec_x = 300, vec_y = 300\<rparr>"
        "\<lparr>angle = 0, cue_visible = True, power = - 20, charging = True\<rparr>"
        "\<lparr>ball_x = 300, ball_y = 300,
           ball_body = Some \<lparr>body_position = \<lparr>vec_x = 300, vec_y = 300\<rparr>,
                             body_velocity = \<lparr>vec_x = 0, vec_y = 0\<rparr>\<rparr>\<rparr>"] v0 l0
    by (auto simp: stillTrail_def)
qed

section \<open>Properties of the obstacle field\<close>

subsection \<open>Angles and distances\<close>

lemma hypot_pos: "px \<noteq> 0 \<or> py \<noteq> 0 \<Longrightarrow> 0 < sqrt (px * px + py * py)"
  by (simp add: sum_squares_gt_zero_iff)

lemma cos_arctan_div:
  assumes "px \<noteq> 0"
  shows "cos (arctan (py / px)) = \<bar>px\<bar> / sqrt (px * px + py * py)"
proof -
  have "1 + (py / px)\<^sup>2 = (px * px + py * py) / (px * px)"
    using assms by (simp add: power2_eq_square field_simps)
  then have "sqrt (1 + (py / px)\<^sup>2) = sqrt (px * px + py * py) / \<bar>px\<bar>"
    by (simp add: real_sqrt_divide)
  then show ?thesis by (simp add: cos_arctan)
qed

lemma sin_arctan_div:
  assumes "px \<noteq> 0"
  shows "sin (arctan (py / px)) = (py / px) * \<bar>px\<bar> / sqrt (px * px + py * py)"
proof -
  have "1 + (py / px)\<^sup>2 = (px * px + py * py) / (px * px)"
    using assms by (simp add: power2_eq_square field_simps)
  then have "sqrt (1 + (py / px)\<^sup>2) = sqrt (px * px + py * py) / \<bar>px\<bar>"
    by (simp add: real_sqrt_divide)
  then show ?thesis by (simp add: sin_arctan)
qed

lemma cos_atan2:
  assumes "px \<noteq> 0 \<or> py \<noteq> 0"
  shows "cos (atan2 py px) = px / sqrt (px * px + py * py)"
proof (cases "px = 0")
  case True
  with assms show ?thesis by (simp add: atan2_def)
next
  case False
  then show ?thesis
    by (auto simp: atan2_def cos_arctan_div)
qed

lemma sin_atan2:
  assumes "px \<noteq> 0 \<or> py \<noteq> 0"
  shows "sin (atan2 py px) = py / sqrt (px * px + py * py)"
proof (cases "px = 0")
  case True
  with assms show ?thesis by (auto simp: atan2_def)
next
  case False
  then show ?thesis
    by (auto simp: atan2_def sin_arctan_div)
qed

lemma scaled_unit_square:
  fixes c s r :: real
  assumes "c * c + s * s = 1"
  shows "c * r * (c * r) + s * r * (s * r) = r * r"
proof -
  have "c * r * (c * r) + s * r * (s * r) = (r * r) * (c * c + s * s)"
    by (simp add: algebra_simps)
  then show ?thesis using assms by simp
qed

lemma dist2_polar: "dist2 cx cy (cx + cos a * r) (cy + sin a * r) = \<bar>r\<bar>"
  by (simp add: dist2_def scaled_unit_square)

lemma dist2_zero_iff: "dist2 x1 y1 x2 y2 = 0 \<longleftrightarrow> x2 = x1 \<and> y2 = y1"
  by (simp add: dist2_def)

lemma dist2_nonneg: "0 \<le> dist2 x1 y1 x2 y2"
  by (simp add: dist2_def)

lemma dist2_same_y: "dist2 x1 y1 x2 y1 = \<bar>x2 - x1\<bar>"
  by (simp add: dist2_def)

lemma less_sqrt_iff: "0 \<le> c \<Longrightarrow> c < sqrt a \<longleftrightarrow> c * c < a"
  by (metis abs_of_nonneg real_sqrt_abs2 real_sqrt_less_iff)

lemma sqrt_less_iff: "0 < c \<Longrightarrow> sqrt a < c \<longleftrightarrow> a < c * c"
  by (metis abs_of_pos real_sqrt_abs2 real_sqrt_less_iff)

subsection \<open>The force pass on one ball\<close>

lemma p5_map_ok: "stop1 \<noteq> start1 \<Longrightarrow>
  p5_map n start1 stop1 start2 stop2 =
    Inr ((n - start1) / (stop1 - start1) * (stop2 - start2) + start2)"
  by (simp add: p5_map_def js_div_def bind_result_def)

lemma ball_body_same:
  "ball_body b = Some bd \<Longrightarrow> b\<lparr>ball_body := Some (bd\<lparr>body_velocity := body_velocity bd\<rparr>)\<rparr> = b"
  by (cases b, cases bd) simp

lemma limit_velocity_ok:
  assumes "ball_body b = Some bd"
  shows "\<exists>v. (if s > 10 then
               bind_result (js_div nx s)
                 (\<lambda>qx. bind_result (js_div ny s)
                    (\<lambda>qy. Inr (setVelocity b (qx * 10) (qy * 10))))
             else Inr (setVelocity b nx ny))
            = Inr (b\<lparr>ball_body := Some (bd\<lparr>body_velocity := v\<rparr>)\<rparr>)"
  using assms by (auto simp: js_div_def bind_result_def setVelocity_def)

lemma pushBallAway_ok:
  assumes "ball_body b = Some bd" "interactionRadius p \<noteq> 5"
  shows "\<exists>v. pushBallAway p b ob d = Inr (b\<lparr>ball_body := Some (bd\<lparr>body_velocity := v\<rparr>)\<rparr>)"
proof -
  define ang where "ang = atan2 (vec_y (body_position bd) - obs_y ob)
      (vec_x (body_position bd) - obs_x ob) + sin (rotationAngle ob * 2) * 0.2"
  define fm where "fm = (d - 5) / (interactionRadius p - 5) * (minPushForce p - maxPushForce p)
      + maxPushForce p"
  define nx where "nx = vec_x (getVelocity b) + cos ang * fm * 0.3"
  define ny where "ny = vec_y (getVelocity b) + sin ang * fm * 0.3"
  define s where "s = sqrt (nx * nx + ny * ny)"
  have "pushBallAway p b ob d =
      (if s > 10 then
         bind_result (js_div nx s)
           (\<lambda>qx. bind_result (js_div ny s)
              (\<lambda>qy. Inr (setVelocity b (qx * 10) (qy * 10))))
       else Inr (setVelocity b nx ny))"
    unfolding pushBallAway_def Let_def p5_map_ok[OF assms(2)] s_def nx_def ny_def fm_def ang_def
    by (simp add: assms(1) bind_result_def)
  then show ?thesis
    using limit_velocity_ok[OF assms(1)] by simp
qed

lemma emergencyPushBall_result:
  assumes "ball_body b = Some bd"
  shows "emergencyPushBall b ob =
     Inr (b\<lparr>ball_x := obs_x ob + cos (atan2 (vec_y (body_position bd) - obs_y ob)
                                           (vec_x (body_position bd) - obs_x ob)) * 40,
            ball_y := obs_y ob + sin (atan2 (vec_y (body_position bd) - obs_y ob)
                                           (vec_x (body_position bd) - obs_x ob)) * 40,
            ball_body := Some
              \<lparr>body_position =
                 \<lparr>vec_x = obs_x ob + cos (atan2 (vec_y (body_position bd) - obs_y ob)
                                           (vec_x (body_position bd) - obs_x ob)) * 40,
                  vec_y = obs_y ob + sin (atan2 (vec_y (body_position bd) - obs_y ob)
                                           (vec_x (body_position bd) - obs_x ob)) * 40\<rparr>,
               body_velocity =
                 \<lparr>vec_x = cos (atan2 (vec_y (body_position bd) - obs_y ob)
                                     (vec_x (body_position bd) - obs_x ob)) * 3,
                  vec_y = sin (atan2 (vec_y (body_position bd) - obs_y ob)
                                     (vec_x (body_position bd) - obs_x ob)) * 3\<rparr>\<rparr>\<rparr>)"
  using assms
  by (cases bd) (simp add: emergencyPushBall_def Let_def setVelocity_def setPosition_def)

text \<open>What the callback does to a ball with a body, by the distance of the body.\<close>

lemma interactWithBall_body:
  "ball_body b = Some bd \<Longrightarrow>
   interactWithBall p ob b =
     bind_result
       (if distanceTo ob bd < interactionRadius p \<and> distanceTo ob bd > 5
        then pushBallAway p b ob (distanceTo ob bd) else Inr b)
       (\<lambda>b1. if distanceTo ob bd < emergencyRadius p \<and> distanceTo ob bd > 0
              then emergencyPushBall b1 ob else Inr b1)"
  by (simp add: interactWithBall_def Let_def distanceTo_def)

lemma interact_no_body: "ball_body b = None \<Longrightarrow> interactWithBall p ob b = Inr b"
  by (simp add: interactWithBall_def)

lemma interact_emergency:
  assumes "ball_body b = Some bd"
    and "0 < distanceTo ob bd" "distanceTo ob bd < emergencyRadius p"
  shows "\<exists>b'. interactWithBall p ob b = Inr b' \<and>
           ball_body b' = Some \<lparr>body_position = escapePoint ob bd,
             body_velocity = \<lparr>vec_x = (vec_x (body_position bd) - obs_x ob) / distanceTo ob bd * 3,
                              vec_y = (vec_y (body_position bd) - obs_y ob) / distanceTo ob bd * 3\<rparr>\<rparr>"
proof -
  let ?dx = "vec_x (body_position bd) - obs_x ob" and ?dy = "vec_y (body_position bd) - obs_y ob"
  have d: "distanceTo ob bd = sqrt (?dx * ?dx + ?dy * ?dy)"
    by (simp add: distanceTo_def dist2_def)
  have nz: "?dx \<noteq> 0 \<or> ?dy \<noteq> 0"
    using assms(2) unfolding d by auto
  have cs: "cos (atan2 ?dy ?dx) = ?dx / distanceTo ob bd" "sin (atan2 ?dy ?dx) = ?dy / distanceTo ob bd"
    unfolding d using nz by (rule cos_atan2, rule sin_atan2)
  have "\<exists>v. (if distanceTo ob bd < interactionRadius p \<and> distanceTo ob bd > 5
             then pushBallAway p b ob (distanceTo ob bd) else Inr b)
            = Inr (b\<lparr>ball_body := Some (bd\<lparr>body_velocity := v\<rparr>)\<rparr>)"
  proof (cases "distanceTo ob bd < interactionRadius p \<and> distanceTo ob bd > 5")
    case True
    then have "interactionRadius p \<noteq> 5" by auto
    then show ?thesis
      using pushBallAway_ok[OF assms(1), of p ob "distanceTo ob bd"] True by simp
  next
    case False
    then show ?thesis
      using ball_body_same[OF assms(1)] by (metis (full_types))
  qed
  then obtain v where b1: "(if distanceTo ob bd < interactionRadius p \<and> distanceTo ob bd > 5
             then pushBallAway p b ob (distanceTo ob bd) else Inr b)
            = Inr (b\<lparr>ball_body := Some (bd\<lparr>body_velocity := v\<rparr>)\<rparr>)" ..
  define b1 where "b1 = b\<lparr>ball_body := Some (bd\<lparr>body_velocity := v\<rparr>)\<rparr>"
  note b1 = b1[folded b1_def]
  have body1: "ball_body b1 = Some (bd\<lparr>body_velocity := v\<rparr>)" by (simp add: b1_def)
  have "interactWithBall p ob b = emergencyPushBall b1 ob"
    unfolding interactWithBall_body[OF assms(1)] b1 using assms(2,3)
    by (simp add: bind_result_def)
  then show ?thesis
    by (simp add: emergencyPushBall_result[OF body1] cs escapePoint_def)
qed

lemma interact_outside:
  assumes "ball_body b = Some bd"
    and "\<not> (0 < distanceTo ob bd \<and> distanceTo ob bd < emergencyRadius p)"
  shows "\<exists>v. interactWithBall p ob b = Inr (b\<lparr>ball_body := Some (bd\<lparr>body_velocity := v\<rparr>)\<rparr>)"
proof (cases "distanceTo ob bd < interactionRadius p \<and> distanceTo ob bd > 5")
  case True
  then have "interactionRadius p \<noteq> 5" by auto
  then obtain v where "pushBallAway p b ob (distanceTo ob bd)
       = Inr (b\<lparr>ball_body := Some (bd\<lparr>body_velocity := v\<rparr>)\<rparr>)"
    using pushBallAway_ok[OF assms(1)] by blast
  then show ?thesis
    unfolding interactWithBall_body[OF assms(1)] using assms(2) True
    by (auto simp: bind_result_def)
next
  case False
  have "interactWithBall p ob b = Inr b"
    unfolding interactWithBall_body[OF assms(1)] using assms(2) False
    by (auto simp: bind_result_def)
  then show ?thesis using ball_body_same[OF assms(1)] by metis
qed

lemma interact_centre:
  assumes "ball_body b = Some bd" "distanceTo ob bd = 0"
  shows "interactWithBall p ob b = Inr b"
  unfolding interactWithBall_body[OF assms(1)] using assms(2) by (simp add: bind_result_def)

lemma interact_total: "\<exists>b'. interactWithBall p ob b = Inr b'"
proof (cases "ball_body b")
  case None
  then show ?thesis by (simp add: interact_no_body)
next
  case (Some bd)
  show ?thesis
  proof (cases "0 < distanceTo ob bd \<and> distanceTo ob bd < emergencyRadius p")
    case True
    then show ?thesis using interact_emergency[OF Some] by blast
  next
    case False
    then show ?thesis using interact_outside[OF Some] by blast
  qed
qed

lemma escapePoint_polar:
  assumes "0 < distanceTo ob bd"
  shows "escapePoint ob bd =
     \<lparr>vec_x = obs_x ob + cos (atan2 (vec_y (body_position bd) - obs_y ob)
                                   (vec_x (body_position bd) - obs_x ob)) * 40,
      vec_y = obs_y ob + sin (atan2 (vec_y (body_position bd) - obs_y ob)
                                   (vec_x (body_position bd) - obs_x ob)) * 40\<rparr>"
proof -
  let ?dx = "vec_x (body_position bd) - obs_x ob" and ?dy = "vec_y (body_position bd) - obs_y ob"
  have d: "distanceTo ob bd = sqrt (?dx * ?dx + ?dy * ?dy)"
    by (simp add: distanceTo_def dist2_def)
  have nz: "?dx \<noteq> 0 \<or> ?dy \<noteq> 0" using assms unfolding d by auto
  show ?thesis
    unfolding escapePoint_def d cos_atan2[OF nz] sin_atan2[OF nz] by simp
qed

lemma escapePoint_distance:
  assumes "0 < distanceTo ob bd"
  shows "dist2 (obs_x ob) (obs_y ob) (vec_x (escapePoint ob bd)) (vec_y (escapePoint ob bd)) = 40"
  by (simp add: escapePoint_polar[OF assms] dist2_polar)

lemma interact_escapes: "interactWithBall p ob b = Inr b' \<Longrightarrow> escapes p ob b b'"
proof (cases "ball_body b")
  case None
  assume "interactWithBall p ob b = Inr b'"
  with None show ?thesis by (simp add: interact_no_body escapes_def)
next
  case (Some bd)
  assume r: "interactWithBall p ob b = Inr b'"
  show ?thesis
  proof (cases "0 < distanceTo ob bd \<and> distanceTo ob bd < emergencyRadius p")
    case True
    then obtain b2 where "interactWithBall p ob b = Inr b2"
      and "ball_body b2 = Some \<lparr>body_position = escapePoint ob bd,
             body_velocity = \<lparr>vec_x = (vec_x (body_position bd) - obs_x ob) / distanceTo ob bd * 3,
                              vec_y = (vec_y (body_position bd) - obs_y ob) / distanceTo ob bd * 3\<rparr>\<rparr>"
      using interact_emergency[OF Some, of ob p] by blast
    then show ?thesis
      using r Some True escapePoint_distance[of ob bd]
      by (auto simp: escapes_def distanceTo_def)
  next
    case False
    then show ?thesis
      using r Some interact_outside[OF Some False] by (auto simp: escapes_def)
  qed
qed

lemma vmag_polar: "vmag \<lparr>vec_x = cos a * r, vec_y = sin a * r\<rparr> = \<bar>r\<bar>"
  by (simp add: vmag_def scaled_unit_square)

lemma vmag_unit_scaled:
  assumes "px \<noteq> 0 \<or> py \<noteq> 0"
  shows "vmag \<lparr>vec_x = px / sqrt (px * px + py * py) * 3,
               vec_y = py / sqrt (px * px + py * py) * 3\<rparr> = 3"
proof -
  have "vmag \<lparr>vec_x = cos (atan2 py px) * 3, vec_y = sin (atan2 py px) * 3\<rparr> = \<bar>3\<bar>"
    by (rule vmag_polar)
  then show ?thesis by (simp add: cos_atan2[OF assms] sin_atan2[OF assms])
qed

lemma interact_teleports: "interactWithBall p ob b = Inr b' \<Longrightarrow> teleports p ob b b'"
proof (cases "ball_body b")
  case None
  assume "interactWithBall p ob b = Inr b'"
  with None show ?thesis by (simp add: interact_no_body teleports_def)
next
  case (Some bd)
  assume r: "interactWithBall p ob b = Inr b'"
  show ?thesis
  proof (cases "0 < distanceTo ob bd \<and> distanceTo ob bd < emergencyRadius p")
    case True
    let ?dx = "vec_x (body_position bd) - obs_x ob" and ?dy = "vec_y (body_position bd) - obs_y ob"
    have d: "distanceTo ob bd = sqrt (?dx * ?dx + ?dy * ?dy)"
      by (simp add: distanceTo_def dist2_def)
    have nz: "?dx \<noteq> 0 \<or> ?dy \<noteq> 0" using True unfolding d by auto
    obtain b2 where "interactWithBall p ob b = Inr b2"
      and "ball_body b2 = Some \<lparr>body_position = escapePoint ob bd,
             body_velocity = \<lparr>vec_x = ?dx / distanceTo ob bd * 3,
                              vec_y = ?dy / distanceTo ob bd * 3\<rparr>\<rparr>"
      using interact_emergency[OF Some, of ob p] True by blast
    then show ?thesis
      using r Some True vmag_unit_scaled[OF nz]
      by (auto simp: teleports_def getPosition_def getVelocity_def d vector_eta)
  next
    case False
    show ?thesis
    proof (cases "distanceTo ob bd = 0")
      case True
      then show ?thesis
        using r Some False interact_centre[OF Some True, of p] by (simp add: teleports_def)
    next
      case nc: False
      then show ?thesis
        using r Some False interact_outside[OF Some False]
        by (auto simp: teleports_def getPosition_def)
    qed
  qed
qed

subsection \<open>The force pass on all balls\<close>

lemma forEachBall_total:
  assumes "\<And>b. \<exists>b'. f b = Inr b'"
  shows "\<exists>bs'. forEachBall f bs = Inr bs' \<and> list_all2 (\<lambda>b b'. f b = Inr b') bs bs'"
proof (induction bs)
  case Nil
  show ?case by simp
next
  case (Cons b bs)
  obtain b' where "f b = Inr b'" using assms by blast
  moreover obtain bs' where "forEachBall f bs = Inr bs'" "list_all2 (\<lambda>b b'. f b = Inr b') bs bs'"
    using Cons.IH by blast
  ultimately show ?case by (simp add: bind_result_def)
qed

lemma handleBallInteractions_total:
  "\<exists>bm'. handleBallInteractions p ob bm = Inr bm' \<and>
     list_all2 (\<lambda>b b'. interactWithBall p ob b = Inr b') (allBalls bm) (allBalls bm')"
proof -
  obtain cb where cb: "interactWithBall p ob (getCueBall bm) = Inr cb"
    using interact_total by blast
  obtain reds where reds: "forEachBall (interactWithBall p ob) (getRedBalls bm) = Inr reds"
      "list_all2 (\<lambda>b b'. interactWithBall p ob b = Inr b') (getRedBalls bm) reds"
    using forEachBall_total[of "interactWithBall p ob"] interact_total by blast
  obtain cols where cols: "forEachBall (interactWithBall p ob) (getColoredBalls bm) = Inr cols"
      "list_all2 (\<lambda>b b'. interactWithBall p ob b = Inr b') (getColoredBalls bm) cols"
    using forEachBall_total[of "interactWithBall p ob"] interact_total by blast
  have "handleBallInteractions p ob bm =
          Inr (bm\<lparr>cueBall := cb, redBalls := reds, coloredBalls := cols\<rparr>)"
    by (simp add: handleBallInteractions_def cb reds(1) cols(1) bind_result_def)
  moreover have "list_all2 (\<lambda>b b'. interactWithBall p ob b = Inr b') (allBalls bm)
      (allBalls (bm\<lparr>cueBall := cb, redBalls := reds, coloredBalls := cols\<rparr>))"
    using cb reds(2) cols(2)
    by (simp add: allBalls_def getCueBall_def getRedBalls_def getColoredBalls_def
        list_all2_appendI)
  ultimately show ?thesis by blast
qed

lemma handle_cue_ball:
  "\<exists>b'. handleBallInteractions p ob (cueBallAt px py) = Inr ((cueBallAt px py)\<lparr>cueBall := b'\<rparr>) \<and>
        interactWithBall p ob (cueBall (cueBallAt px py)) = Inr b'"
proof -
  obtain b' where "interactWithBall p ob (cueBall (cueBallAt px py)) = Inr b'"
    using interact_total by blast
  then show ?thesis
    by (auto simp: handleBallInteractions_def bind_result_def getCueBall_def getRedBalls_def
        getColoredBalls_def cueBallAt_def)
qed

lemma cue_body:
  "ball_body (cueBall (cueBallAt px py)) =
     Some \<lparr>body_position = \<lparr>vec_x = px, vec_y = py\<rparr>, body_velocity = \<lparr>vec_x = 0, vec_y = 0\<rparr>\<rparr>"
  by (simp add: cueBallAt_def)

lemma distance_example:
  "distanceTo activeObstacle
     \<lparr>body_position = \<lparr>vec_x = px, vec_y = py\<rparr>, body_velocity = v\<rparr> = dist2 600 300 px py"
  by (simp add: distanceTo_def activeObstacle_def)

lemma emergencyRadius_new: "emergencyRadius DynamicObstacles_new = 25"
  by (simp add: DynamicObstacles_new_def)

lemma sqrt_25: "sqrt 25 = 5"
  by (rule real_sqrt_unique) simp_all

text \<open>
  C6, as stated, fails. The cue ball's body is at (625, 300), at distance exactly 25,
  the emergency radius, from the active obstacle at (600, 300). The emergency test
  \<open>distance < emergencyRadius\<close> is false there, so the pass only pushes the velocity:
  the body is still at (625, 300), at distance 25 and not 40.
\<close>

theorem emergency_radius_boundary_counterexample:
  "dist2 (obs_x activeObstacle) (obs_y activeObstacle) 625 300
     = emergencyRadius DynamicObstacles_new \<and>
   map_sum id (getPosition \<circ> getCueBall)
     (handleBallInteractions DynamicObstacles_new activeObstacle (cueBallAt 625 300))
     = Inr \<lparr>vec_x = 625, vec_y = 300\<rparr> \<and>
   dist2 (obs_x activeObstacle) (obs_y activeObstacle) 625 300 \<noteq> 40"
proof -
  let ?bd = "\<lparr>body_position = \<lparr>vec_x = 625, vec_y = 300\<rparr>, body_velocity = \<lparr>vec_x = 0, vec_y = 0\<rparr>\<rparr>"
  have d: "dist2 (obs_x activeObstacle) (obs_y activeObstacle) 625 300 = 25"
    by (simp add: activeObstacle_def dist2_same_y)
  have out: "\<not> (0 < distanceTo activeObstacle ?bd \<and>
                  distanceTo activeObstacle ?bd < emergencyRadius DynamicObstacles_new)"
    by (simp add: distance_example dist2_same_y emergencyRadius_new)
  obtain b' where h: "handleBallInteractions DynamicObstacles_new activeObstacle (cueBallAt 625 300)
        = Inr ((cueBallAt 625 300)\<lparr>cueBall := b'\<rparr>)"
    and i: "interactWithBall DynamicObstacles_new activeObstacle (cueBall (cueBallAt 625 300)) = Inr b'"
    using handle_cue_ball by blast
  obtain v where "interactWithBall DynamicObstacles_new activeObstacle (cueBall (cueBallAt 625 300))
      = Inr ((cueBall (cueBallAt 625 300))\<lparr>ball_body := Some (?bd\<lparr>body_velocity := v\<rparr>)\<rparr>)"
    using interact_outside[OF cue_body out] by blast
  with i have "getPosition b' = \<lparr>vec_x = 625, vec_y = 300\<rparr>"
    by (auto simp: getPosition_def)
  then show ?thesis
    by (simp add: h d getCueBall_def emergencyRadius_new)
qed

text \<open>
  C6, amended. The force pass returns for every obstacle and every ball manager, and
  for each ball: a ball without a body is untouched; a body whose distance from the
  centre of the obstacle is positive and strictly below the emergency radius (25) ends
  at distance 40 from the centre; a body at any other distance, the emergency radius
  itself included, keeps its position.
\<close>

theorem emergency_escape_distance:
  "\<exists>bm'. handleBallInteractions p ob bm = Inr bm' \<and>
         list_all2 (escapes p ob) (allBalls bm) (allBalls bm')"
proof -
  obtain bm' where "handleBallInteractions p ob bm = Inr bm'"
    and "list_all2 (\<lambda>b b'. interactWithBall p ob b = Inr b') (allBalls bm) (allBalls bm')"
    using handleBallInteractions_total by blast
  moreover from this(2) have "list_all2 (escapes p ob) (allBalls bm) (allBalls bm')"
    by (rule list_all2_mono) (rule interact_escapes)
  ultimately show ?thesis by blast
qed

text \<open>A body at (610, 300), at distance 10 from the obstacle, ends at distance 40.\<close>

theorem emergency_escape_distance_witness:
  "\<exists>bm' bd'. handleBallInteractions DynamicObstacles_new activeObstacle (cueBallAt 610 300) = Inr bm' \<and>
      ball_body (getCueBall bm') = Some bd' \<and>
      dist2 600 300 (vec_x (body_position bd')) (vec_y (body_position bd')) = 40"
proof -
  obtain bm' where h: "handleBallInteractions DynamicObstacles_new activeObstacle (cueBallAt 610 300) = Inr bm'"
    and l: "list_all2 (escapes DynamicObstacles_new activeObstacle)
              (allBalls (cueBallAt 610 300)) (allBalls bm')"
    using emergency_escape_distance by blast
  from l have "escapes DynamicObstacles_new activeObstacle (cueBall (cueBallAt 610 300)) (getCueBall bm')"
    by (simp add: allBalls_def getCueBall_def)
  then obtain bd' where "ball_body (getCueBall bm') = Some bd'"
    "distanceTo activeObstacle bd' = 40"
    by (auto simp: escapes_def cue_body distance_example dist2_same_y emergencyRadius_new
        split: option.splits)
  moreover from this(2)
  have "dist2 600 300 (vec_x (body_position bd')) (vec_y (body_position bd')) = 40"
    by (simp add: distanceTo_def activeObstacle_def)
  ultimately show ?thesis using h by blast
qed

text \<open>
  C7, as stated, fails for a body at distance exactly zero. The cue ball's body is at
  (600, 300), the centre of the active obstacle. Both tests, \<open>distance > 5\<close> of the push
  and \<open>distance > 0\<close> of the emergency teleport, are false, and the pass returns the
  ball manager as it was: the body is not repositioned.
\<close>

theorem centre_not_teleported_counterexample:
  "dist2 (obs_x activeObstacle) (obs_y activeObstacle) 600 300 = 0 \<and>
   handleBallInteractions DynamicObstacles_new activeObstacle (cueBallAt 600 300)
     = Inr (cueBallAt 600 300)"
proof -
  let ?bd = "\<lparr>body_position = \<lparr>vec_x = 600, vec_y = 300\<rparr>, body_velocity = \<lparr>vec_x = 0, vec_y = 0\<rparr>\<rparr>"
  have d: "distanceTo activeObstacle ?bd = 0"
    by (simp add: distance_example dist2_same_y)
  have "interactWithBall DynamicObstacles_new activeObstacle (cueBall (cueBallAt 600 300))
          = Inr (cueBall (cueBallAt 600 300))"
    using interact_centre[OF cue_body d] .
  then have "handleBallInteractions DynamicObstacles_new activeObstacle (cueBallAt 600 300)
          = Inr (cueBallAt 600 300)"
    by (simp add: handleBallInteractions_def bind_result_def getCueBall_def getRedBalls_def
        getColoredBalls_def cueBallAt_def)
  then show ?thesis
    by (simp add: activeObstacle_def dist2_same_y)
qed

text \<open>
  C7, amended. At every distance, zero included, the force pass returns a result: no
  division by zero and no other fault is reached. A body at a positive distance below
  the emergency radius, however small, is repositioned to the point at distance 40 from
  the centre of the obstacle in the direction from the centre to the body, with a
  velocity of magnitude 3. A body at distance exactly zero is left as it is, neither
  pushed nor repositioned.
\<close>

theorem emergency_escape_direction:
  "\<exists>bm'. handleBallInteractions p ob bm = Inr bm' \<and>
         list_all2 (teleports p ob) (allBalls bm) (allBalls bm')"
proof -
  obtain bm' where "handleBallInteractions p ob bm = Inr bm'"
    and "list_all2 (\<lambda>b b'. interactWithBall p ob b = Inr b') (allBalls bm) (allBalls bm')"
    using handleBallInteractions_total by blast
  moreover from this(2) have "list_all2 (teleports p ob) (allBalls bm) (allBalls bm')"
    by (rule list_all2_mono) (rule interact_teleports)
  ultimately show ?thesis by blast
qed

text \<open>
  A body at (603, 304), at distance 5 from the obstacle at (600, 300), is put at
  (624, 332), which is (600, 300) + 40 (3/5, 4/5).
\<close>

theorem emergency_escape_direction_witness:
  "map_sum id (getPosition \<circ> getCueBall)
     (handleBallInteractions DynamicObstacles_new activeObstacle (cueBallAt 603 304))
     = Inr \<lparr>vec_x = 624, vec_y = 332\<rparr>"
proof -
  obtain bm' where h: "handleBallInteractions DynamicObstacles_new activeObstacle (cueBallAt 603 304) = Inr bm'"
    and l: "list_all2 (teleports DynamicObstacles_new activeObstacle)
              (allBalls (cueBallAt 603 304)) (allBalls bm')"
    using emergency_escape_direction by blast
  let ?bd = "\<lparr>body_position = \<lparr>vec_x = 603, vec_y = 304\<rparr>, body_velocity = \<lparr>vec_x = 0, vec_y = 0\<rparr>\<rparr>"
  have d: "distanceTo activeObstacle ?bd = 5"
    by (simp add: distance_example dist2_def sqrt_25)
  have e: "escapePoint activeObstacle ?bd = \<lparr>vec_x = 624, vec_y = 332\<rparr>"
    unfolding escapePoint_def d by (simp add: activeObstacle_def)
  from l have "teleports DynamicObstacles_new activeObstacle (cueBall (cueBallAt 603 304)) (getCueBall bm')"
    by (simp add: allBalls_def getCueBall_def)
  then have "getPosition (getCueBall bm') = \<lparr>vec_x = 624, vec_y = 332\<rparr>"
    by (simp add: teleports_def cue_body d e emergencyRadius_new)
  with h show ?thesis by simp
qed

subsection \<open>One tick of the obstacles\<close>

lemma tick_fields:
  "age (tickObstacle p ob) = age ob + 1"
  "maxAge (tickObstacle p ob) = maxAge ob"
  "obs_x (tickObstacle p ob) = obs_x ob"
  "obs_y (tickObstacle p ob) = obs_y ob"
  by (simp_all add: tickObstacle_def updateObstaclePhase_def activateObstacle_def
      deactivateObstacle_def Let_def)

lemma tick_stage:
  "maxAge ob = warningTime p + activeTime p + fadeTime p \<Longrightarrow>
   stage (tickObstacle p ob) = phaseByAge p (age ob + 1)"
  by (simp add: stage_def expired_def phaseByAge_def tickObstacle_def updateObstaclePhase_def
      activateObstacle_def deactivateObstacle_def Let_def)

lemma tick_cong:
  "warningTime q = warningTime p \<Longrightarrow> activeTime q = activeTime p \<Longrightarrow>
   obstacleSize q = obstacleSize p \<Longrightarrow> tickObstacle q = tickObstacle p"
  by (intro ext)
     (simp add: tickObstacle_def updateObstaclePhase_def activateObstacle_def Let_def)

lemma removeObstacle_ok:
  "i < length obs \<Longrightarrow> removeObstacle obs i = Inr (take i obs @ drop (Suc i) obs)"
  by (simp add: removeObstacle_def)

lemma updateObstacles_loop_Suc:
  "i < length obs \<Longrightarrow>
   updateObstacles_loop p (Suc i) obs bm =
     bind_result
       (if phase (tickObstacle p (obs ! i)) = Active
        then handleBallInteractions p (tickObstacle p (obs ! i)) bm else Inr bm)
       (\<lambda>bm1. bind_result
          (if expired (tickObstacle p (obs ! i))
           then removeObstacle (obs[i := tickObstacle p (obs ! i)]) i
           else Inr (obs[i := tickObstacle p (obs ! i)]))
          (\<lambda>obs2. updateObstacles_loop p i obs2 bm1))"
  by (simp add: tickObstacle_def expired_def Let_def)

lemma updateObstacles_loop_result:
  "k \<le> length obs \<Longrightarrow>
   \<exists>bm'. updateObstacles_loop p k obs bm =
     Inr (filter (\<lambda>ob. \<not> expired ob) (map (tickObstacle p) (take k obs)) @ drop k obs, bm')"
proof (induction k arbitrary: obs bm)
  case 0
  show ?case by simp
next
  case (Suc i)
  then have i: "i < length obs" by simp
  define ob3 where "ob3 = tickObstacle p (obs ! i)"
  obtain bm1 where bm1:
    "(if phase ob3 = Active then handleBallInteractions p ob3 bm else Inr bm) = Inr bm1"
    using handleBallInteractions_total[of p ob3 bm] by (cases "phase ob3 = Active") auto
  define obs2 where
    "obs2 = (if expired ob3 then take i obs @ drop (Suc i) obs else obs[i := ob3])"
  have rem: "(if expired ob3 then removeObstacle (obs[i := ob3]) i else Inr (obs[i := ob3]))
             = Inr obs2"
    using i by (simp add: obs2_def removeObstacle_ok)
  have unfold: "updateObstacles_loop p (Suc i) obs bm = updateObstacles_loop p i obs2 bm1"
    unfolding updateObstacles_loop_Suc[OF i] ob3_def[symmetric] bm1 rem
    by (simp add: bind_result_def)
  have len: "i \<le> length obs2" using i by (auto simp: obs2_def)
  obtain bm' where ih: "updateObstacles_loop p i obs2 bm1 =
      Inr (filter (\<lambda>ob. \<not> expired ob) (map (tickObstacle p) (take i obs2)) @ drop i obs2, bm')"
    using Suc.IH[OF len] by blast
  have t: "take i obs2 = take i obs"
    using i by (simp add: obs2_def)
  have d: "drop i obs2 = (if expired ob3 then [] else [ob3]) @ drop (Suc i) obs"
    using i by (simp add: obs2_def Cons_nth_drop_Suc[symmetric] upd_conv_take_nth_drop)
  have "filter (\<lambda>ob. \<not> expired ob) (map (tickObstacle p) (take (Suc i) obs)) @ drop (Suc i) obs
        = filter (\<lambda>ob. \<not> expired ob) (map (tickObstacle p) (take i obs2)) @ drop i obs2"
    using i by (simp add: take_Suc_conv_app_nth t d ob3_def)
  then show ?case
    unfolding unfold ih by (intro exI[of _ bm']) simp
qed

lemma updateObstacles_result:
  "\<exists>bm'. updateObstacles p tbl bm =
     Inr (p\<lparr>obstacles := filter (\<lambda>ob. \<not> expired ob) (map (tickObstacle p) (obstacles p))\<rparr>, bm')"
proof -
  obtain bm' where "updateObstacles_loop p (length (obstacles p)) (obstacles p) bm =
      Inr (filter (\<lambda>ob. \<not> expired ob) (map (tickObstacle p) (take (length (obstacles p)) (obstacles p)))
           @ drop (length (obstacles p)) (obstacles p), bm')"
    using updateObstacles_loop_result[of "length (obstacles p)" "obstacles p" p bm] by blast
  then show ?thesis
    by (simp add: updateObstacles_def bind_result_def)
qed

subsection \<open>The spawn search\<close>

declare findSafeSpawnPosition_loop.simps [simp del]

lemma search_exhausted:
  "\<not> attempts < maxAttempts \<Longrightarrow>
   findSafeSpawnPosition_loop p tbl bm rnd idx attempts = (None, idx)"
  by (subst findSafeSpawnPosition_loop.simps) simp

lemma search_rejected:
  "attempts < maxAttempts \<Longrightarrow>
   rejected p tbl bm (candidateX tbl rnd idx) (candidateY tbl rnd idx) \<Longrightarrow>
   findSafeSpawnPosition_loop p tbl bm rnd idx attempts =
     findSafeSpawnPosition_loop p tbl bm rnd (idx + 2) (attempts + 1)"
  by (subst findSafeSpawnPosition_loop.simps)
     (auto simp: rejected_def candidateX_def candidateY_def Let_def)

lemma search_accepted:
  "attempts < maxAttempts \<Longrightarrow>
   \<not> rejected p tbl bm (candidateX tbl rnd idx) (candidateY tbl rnd idx) \<Longrightarrow>
   findSafeSpawnPosition_loop p tbl bm rnd idx attempts =
     (Some \<lparr>vec_x = candidateX tbl rnd idx, vec_y = candidateY tbl rnd idx\<rparr>, idx + 2)"
  by (subst findSafeSpawnPosition_loop.simps)
     (auto simp: rejected_def candidateX_def candidateY_def Let_def)

lemma search_all_rejected:
  "(\<forall>k. attempts + k < maxAttempts \<longrightarrow>
        rejected p tbl bm (candidateX tbl rnd (idx + 2 * k)) (candidateY tbl rnd (idx + 2 * k))) \<Longrightarrow>
   findSafeSpawnPosition_loop p tbl bm rnd idx attempts =
     (None, idx + 2 * (maxAttempts - attempts))"
proof (induction "maxAttempts - attempts" arbitrary: attempts idx)
  case 0
  then show ?case by (simp add: search_exhausted)
next
  case (Suc n)
  then have lt: "attempts < maxAttempts" by simp
  have r0: "rejected p tbl bm (candidateX tbl rnd idx) (candidateY tbl rnd idx)"
    using Suc.prems[rule_format, of 0] lt by simp
  have rest: "\<forall>k. (attempts + 1) + k < maxAttempts \<longrightarrow>
        rejected p tbl bm (candidateX tbl rnd ((idx + 2) + 2 * k))
          (candidateY tbl rnd ((idx + 2) + 2 * k))"
  proof (intro allI impI)
    fix k assume "(attempts + 1) + k < maxAttempts"
    then have "attempts + Suc k < maxAttempts" by simp
    from Suc.prems[rule_format, OF this]
    show "rejected p tbl bm (candidateX tbl rnd ((idx + 2) + 2 * k))
            (candidateY tbl rnd ((idx + 2) + 2 * k))"
      by (simp add: add.commute add.left_commute)
  qed
  have n: "n = maxAttempts - (attempts + 1)" using Suc.hyps(2) by simp
  have "findSafeSpawnPosition_loop p tbl bm rnd (idx + 2) (attempts + 1) =
          (None, (idx + 2) + 2 * (maxAttempts - (attempts + 1)))"
    using Suc.hyps(1)[OF n rest] .
  then show ?case
    using lt by (simp add: search_rejected[OF lt r0])
qed

lemma search_budget:
  "snd (findSafeSpawnPosition_loop p tbl bm rnd idx attempts)
     \<le> idx + 2 * (maxAttempts - attempts)"
proof (induction "maxAttempts - attempts" arbitrary: attempts idx)
  case 0
  then show ?case by (simp add: search_exhausted)
next
  case (Suc n)
  then have lt: "attempts < maxAttempts" by simp
  have n: "n = maxAttempts - (attempts + 1)" using Suc.hyps(2) by simp
  show ?case
  proof (cases "rejected p tbl bm (candidateX tbl rnd idx) (candidateY tbl rnd idx)")
    case True
    show ?thesis
      using Suc.hyps(1)[OF n, of "idx + 2"] lt by (simp add: search_rejected[OF lt True])
  next
    case False
    show ?thesis
      using lt by (simp add: search_accepted[OF lt False])
  qed
qed

lemma p5_random_range:
  assumes "0 \<le> r" "r < 1" "lo \<le> hi"
  shows "lo \<le> p5_random r lo hi \<and> p5_random r lo hi \<le> hi"
proof -
  have "0 \<le> r * (hi - lo)" using assms by simp
  moreover have "r * (hi - lo) \<le> 1 * (hi - lo)"
    using assms by (intro mult_right_mono) simp_all
  ultimately show ?thesis using assms(3) by (simp add: p5_random_def)
qed

lemma candidate_inside:
  assumes "unitSamples rnd" "160 \<le> table_length tbl" "160 \<le> table_width tbl"
  shows "insideMargin tbl (candidateX tbl rnd i) (candidateY tbl rnd i)"
proof -
  have x: "b_left (getBoundaries tbl) + 80 \<le> b_right (getBoundaries tbl) - 80"
    and y: "b_top (getBoundaries tbl) + 80 \<le> b_bottom (getBoundaries tbl) - 80"
    using assms(2,3) by (simp_all add: getBoundaries_def)
  have "0 \<le> rnd i" "rnd i < 1" "0 \<le> rnd (i + 1)" "rnd (i + 1) < 1"
    using assms(1) by (simp_all add: unitSamples_def)
  then show ?thesis
    using p5_random_range[OF _ _ x, of "rnd i"] p5_random_range[OF _ _ y, of "rnd (i + 1)"]
    by (simp add: insideMargin_def candidateX_def candidateY_def)
qed

lemma search_found:
  "findSafeSpawnPosition_loop p tbl bm rnd idx attempts = (Some pos, idx') \<Longrightarrow>
   \<exists>i. pos = \<lparr>vec_x = candidateX tbl rnd i, vec_y = candidateY tbl rnd i\<rparr>"
proof (induction "maxAttempts - attempts" arbitrary: attempts idx)
  case 0
  then show ?case by (simp add: search_exhausted)
next
  case (Suc n)
  then have lt: "attempts < maxAttempts" by simp
  have n: "n = maxAttempts - (attempts + 1)" using Suc.hyps(2) by simp
  show ?case
  proof (cases "rejected p tbl bm (candidateX tbl rnd idx) (candidateY tbl rnd idx)")
    case True
    show ?thesis
      using Suc.hyps(1)[OF n, of "idx + 2"] Suc.prems by (simp add: search_rejected[OF lt True])
  next
    case False
    show ?thesis
      using Suc.prems by (auto simp: search_accepted[OF lt False])
  qed
qed

lemma spawn_result:
  "spawnRandomObstacle p tbl bm rnd idx =
     (case findSafeSpawnPosition p tbl bm rnd idx of
        (None, idx') \<Rightarrow> (p, idx')
      | (Some spawnPos, idx') \<Rightarrow> (p\<lparr>obstacles := obstacles p @ [newObstacle p spawnPos]\<rparr>, idx'))"
  by (simp add: spawnRandomObstacle_def newObstacle_def Let_def split: prod.splits option.splits)

subsection \<open>One update of the field\<close>

lemma search_settings:
  "findSafeSpawnPosition_loop (p\<lparr>spawnTimer := t\<rparr>) tbl bm rnd idx attempts =
   findSafeSpawnPosition_loop p tbl bm rnd idx attempts"
proof (induction "maxAttempts - attempts" arbitrary: attempts idx)
  case 0
  then show ?case by (simp add: search_exhausted)
next
  case (Suc n)
  then have lt: "attempts < maxAttempts" by simp
  have n: "n = maxAttempts - (attempts + 1)" using Suc.hyps(2) by simp
  have r: "rejected (p\<lparr>spawnTimer := t\<rparr>) tbl bm = rejected p tbl bm"
    by (intro ext) (simp add: rejected_def tooCloseToBalls_def)
  show ?case
  proof (cases "rejected p tbl bm (candidateX tbl rnd idx) (candidateY tbl rnd idx)")
    case True
    then show ?thesis
      using Suc.hyps(1)[OF n, of "idx + 2"] lt
      by (simp add: search_rejected[OF lt] r)
  next
    case False
    then show ?thesis
      by (simp add: search_accepted[OF lt] r)
  qed
qed

lemma tick_timer:
  "tickObstacle (p\<lparr>spawnTimer := t\<rparr>) = tickObstacle p"
  "tickObstacle (p\<lparr>spawnTimer := t, obstacles := obs\<rparr>) = tickObstacle p"
  by (rule tick_cong; simp)+

lemma update_order:
  "p\<lparr>obstacles := obs, spawnTimer := t\<rparr> = p\<lparr>spawnTimer := t, obstacles := obs\<rparr>"
  by simp

lemma newObstacle_timer: "newObstacle (p\<lparr>spawnTimer := t\<rparr>) pos = newObstacle p pos"
  by (simp add: newObstacle_def)

lemma spawn_timer_failed:
  "findSafeSpawnPosition p tbl bm rnd idx = (None, i') \<Longrightarrow>
   spawnRandomObstacle (p\<lparr>spawnTimer := t\<rparr>) tbl bm rnd idx = (p\<lparr>spawnTimer := t\<rparr>, i')"
  by (simp add: spawn_result findSafeSpawnPosition_def search_settings)

lemma spawn_timer_found:
  "findSafeSpawnPosition p tbl bm rnd idx = (Some pos, i') \<Longrightarrow>
   spawnRandomObstacle (p\<lparr>spawnTimer := t\<rparr>) tbl bm rnd idx =
     (p\<lparr>spawnTimer := t, obstacles := obstacles p @ [newObstacle p pos]\<rparr>, i')"
  by (simp add: spawn_result findSafeSpawnPosition_def search_settings newObstacle_timer)

lemma update_disabled: "\<not> do_enabled p \<Longrightarrow> update p tbl bm rnd idx = Inr (p, bm, idx)"
  by (simp add: update_def)

lemma update_no_spawn:
  assumes "do_enabled p" "\<not> spawnDue p bm"
  shows "\<exists>bm'. update p tbl bm rnd idx =
     Inr (p\<lparr>spawnTimer := spawnTimer p + 1,
            obstacles := filter (\<lambda>ob. \<not> expired ob) (map (tickObstacle p) (obstacles p))\<rparr>,
          bm', idx)"
proof -
  let ?p1 = "p\<lparr>spawnTimer := spawnTimer p + 1\<rparr>"
  obtain bm' where "updateObstacles ?p1 tbl bm =
      Inr (?p1\<lparr>obstacles := filter (\<lambda>ob. \<not> expired ob) (map (tickObstacle ?p1) (obstacles ?p1))\<rparr>, bm')"
    using updateObstacles_result by blast
  then show ?thesis
    using assms by (auto simp: update_def Let_def spawnDue_def bind_result_def tick_timer)
qed

lemma update_spawn_failed:
  assumes "do_enabled p" "spawnDue p bm"
    and "findSafeSpawnPosition p tbl bm rnd idx = (None, i')"
  shows "\<exists>bm'. update p tbl bm rnd idx =
           Inr (p\<lparr>spawnTimer := 0,
                  obstacles := filter (\<lambda>ob. \<not> expired ob) (map (tickObstacle p) (obstacles p))\<rparr>,
                bm', i') \<and>
         updateObstacles (p\<lparr>spawnTimer := 0\<rparr>) tbl bm =
           Inr (p\<lparr>spawnTimer := 0,
                  obstacles := filter (\<lambda>ob. \<not> expired ob) (map (tickObstacle p) (obstacles p))\<rparr>,
                bm')"
proof -
  let ?p2 = "p\<lparr>spawnTimer := 0\<rparr>"
  note sp = spawn_timer_failed[OF assms(3)]
  obtain bm' where u: "updateObstacles ?p2 tbl bm =
      Inr (?p2\<lparr>obstacles := filter (\<lambda>ob. \<not> expired ob) (map (tickObstacle ?p2) (obstacles ?p2))\<rparr>, bm')"
    using updateObstacles_result by blast
  have "update p tbl bm rnd idx =
          bind_result (updateObstacles ?p2 tbl bm) (\<lambda>(p3, bm1). Inr (p3, bm1, i'))"
    using assms(1,2) by (simp add: update_def Let_def spawnDue_def sp)
  then show ?thesis
    using u by (auto simp: bind_result_def tick_timer)
qed

lemma update_spawned:
  assumes "do_enabled p" "spawnDue p bm"
    and "findSafeSpawnPosition p tbl bm rnd idx = (Some pos, i')"
  shows "\<exists>bm'. update p tbl bm rnd idx =
           Inr (p\<lparr>spawnTimer := 0,
                  obstacles := filter (\<lambda>ob. \<not> expired ob)
                                 (map (tickObstacle p) (obstacles p @ [newObstacle p pos]))\<rparr>,
                bm', i')"
proof -
  let ?p2 = "p\<lparr>spawnTimer := 0, obstacles := obstacles p @ [newObstacle p pos]\<rparr>"
  note sp = spawn_timer_found[OF assms(3)]
  obtain bm' where u: "updateObstacles ?p2 tbl bm =
      Inr (?p2\<lparr>obstacles := filter (\<lambda>ob. \<not> expired ob) (map (tickObstacle ?p2) (obstacles ?p2))\<rparr>, bm')"
    using updateObstacles_result by blast
  have "update p tbl bm rnd idx =
          bind_result (updateObstacles ?p2 tbl bm) (\<lambda>(p3, bm1). Inr (p3, bm1, i'))"
    using assms(1,2) by (simp add: update_def Let_def spawnDue_def sp update_order)
  then show ?thesis
    using u by (auto simp: bind_result_def tick_timer)
qed

text \<open>What an update can make of the obstacles and of the settings.\<close>

lemma update_obstacles:
  assumes "update p tbl bm rnd idx = Inr (p', bm', idx')"
  shows "warningTime p' = warningTime p \<and> activeTime p' = activeTime p \<and>
         fadeTime p' = fadeTime p \<and>
         (obstacles p' = obstacles p \<or>
          obstacles p' = filter (\<lambda>ob. \<not> expired ob) (map (tickObstacle p) (obstacles p)) \<or>
          (\<exists>i. obstacles p' = filter (\<lambda>ob. \<not> expired ob)
                  (map (tickObstacle p)
                     (obstacles p @
                        [newObstacle p \<lparr>vec_x = candidateX tbl rnd i, vec_y = candidateY tbl rnd i\<rparr>]))))"
proof (cases "do_enabled p")
  case False
  with assms show ?thesis by (simp add: update_disabled)
next
  case en: True
  show ?thesis
  proof (cases "spawnDue p bm")
    case False
    with assms update_no_spawn[OF en False, of tbl rnd idx] show ?thesis by auto
  next
    case due: True
    obtain sp i' where f: "findSafeSpawnPosition p tbl bm rnd idx = (sp, i')"
      by (cases "findSafeSpawnPosition p tbl bm rnd idx") auto
    show ?thesis
    proof (cases sp)
      case None
      with assms f update_spawn_failed[OF en due, of tbl rnd idx i'] show ?thesis by auto
    next
      case (Some pos)
      obtain i where "pos = \<lparr>vec_x = candidateX tbl rnd i, vec_y = candidateY tbl rnd i\<rparr>"
        using f Some search_found[of p tbl bm rnd idx 0 pos i']
        by (auto simp: findSafeSpawnPosition_def)
      with assms f Some update_spawned[OF en due, of tbl rnd idx pos i'] show ?thesis by auto
    qed
  qed
qed

declare disable_loop.simps [simp del]

lemma disable_loop_empties: "disable_loop obs = Inr []"
proof (induction obs rule: length_induct)
  case (1 obs)
  show ?case
  proof (cases obs)
    case Nil
    then show ?thesis by (subst disable_loop.simps) simp
  next
    case (Cons ob rest)
    have "disable_loop rest = Inr []"
      using 1 Cons by simp
    then show ?thesis
      using Cons by (subst disable_loop.simps) (simp add: removeObstacle_def)
  qed
qed

lemma disable_result: "disable p = Inr (p\<lparr>do_enabled := False, obstacles := []\<rparr>)"
  by (simp add: disable_def disable_loop_empties bind_result_def)

subsection \<open>A state with an obstacle\<close>

lemma settings_new:
  "warningTime DynamicObstacles_new = 120" "activeTime DynamicObstacles_new = 300"
  "fadeTime DynamicObstacles_new = 60" "spawnRate DynamicObstacles_new = 420"
  "maxObstacles DynamicObstacles_new = 2" "do_enabled DynamicObstacles_new"
  "obstacles DynamicObstacles_new = []"
  by (simp_all add: DynamicObstacles_new_def)

lemma reachable_idle:
  "n < 420 \<Longrightarrow> reachable tbl (DynamicObstacles_new\<lparr>spawnTimer := n\<rparr>)"
proof (induction n)
  case 0
  have "DynamicObstacles_new\<lparr>spawnTimer := 0\<rparr> = DynamicObstacles_new"
    by (simp add: DynamicObstacles_new_def)
  then show ?case using reachable.constructed[of tbl] by simp
next
  case (Suc n)
  let ?p = "DynamicObstacles_new\<lparr>spawnTimer := n\<rparr>"
  have r: "reachable tbl ?p" using Suc by simp
  have nd: "\<not> spawnDue ?p (cueBallAt 300 300)"
    using Suc.prems by (simp add: spawnDue_def settings_new)
  have en: "do_enabled ?p" by (simp add: settings_new)
  obtain bm' where "update ?p tbl (cueBallAt 300 300) (\<lambda>i. 1 / 2) 0 =
      Inr (?p\<lparr>spawnTimer := spawnTimer ?p + 1,
             obstacles := filter (\<lambda>ob. \<not> expired ob) (map (tickObstacle ?p) (obstacles ?p))\<rparr>,
           bm', 0)"
    using update_no_spawn[OF en nd] by blast
  moreover have "?p\<lparr>spawnTimer := spawnTimer ?p + 1,
             obstacles := filter (\<lambda>ob. \<not> expired ob) (map (tickObstacle ?p) (obstacles ?p))\<rparr>
        = DynamicObstacles_new\<lparr>spawnTimer := Suc n\<rparr>"
    by (simp add: DynamicObstacles_new_def)
  moreover have "unitSamples (\<lambda>i. 1 / 2)" by (simp add: unitSamples_def)
  ultimately show ?case
    using reachable.updated[OF r] by metis
qed

lemma middle_candidate:
  "candidateX Table_new (\<lambda>i. 1 / 2) i = 600" "candidateY Table_new (\<lambda>i. 1 / 2) i = 300"
  by (simp_all add: candidateX_def candidateY_def p5_random_def getBoundaries_def Table_new_def)

lemma middle_not_rejected:
  "\<not> rejected (DynamicObstacles_new\<lparr>spawnTimer := n\<rparr>) Table_new (cueBallAt 300 300) 600 300"
  by (simp add: rejected_def isInDZone_def tooCloseToPockets_def tooCloseToBalls_def
      ballWithin80_def getPocketPositions_def getCueBall_def getRedBalls_def
      getColoredBalls_def cueBallAt_def Table_new_def DynamicObstacles_new_def Let_def
      dist2_def sqrt_less_iff)

lemma middle_found:
  "findSafeSpawnPosition (DynamicObstacles_new\<lparr>spawnTimer := n\<rparr>) Table_new (cueBallAt 300 300)
     (\<lambda>i. 1 / 2) 0 = (Some \<lparr>vec_x = 600, vec_y = 300\<rparr>, 2)"
proof -
  have lt: "0 < maxAttempts" by (simp add: maxAttempts_def)
  show ?thesis
    unfolding findSafeSpawnPosition_def
    using search_accepted[OF lt, of "DynamicObstacles_new\<lparr>spawnTimer := n\<rparr>" Table_new
        "cueBallAt 300 300" "\<lambda>i. 1 / 2" 0]
    by (simp add: middle_candidate middle_not_rejected)
qed

lemma reachable_firstSpawned: "reachable Table_new firstSpawned"
proof -
  let ?p = "DynamicObstacles_new\<lparr>spawnTimer := 419\<rparr>"
  have r: "reachable Table_new ?p" by (rule reachable_idle) simp
  have en: "do_enabled ?p" by (simp add: settings_new)
  have due: "spawnDue ?p (cueBallAt 300 300)"
    by (simp add: spawnDue_def settings_new areBallsMoving_def cueBallAt_def)
  obtain bm' where "update ?p Table_new (cueBallAt 300 300) (\<lambda>i. 1 / 2) 0 =
      Inr (?p\<lparr>spawnTimer := 0,
             obstacles := filter (\<lambda>ob. \<not> expired ob)
               (map (tickObstacle ?p) (obstacles ?p @ [newObstacle ?p \<lparr>vec_x = 600, vec_y = 300\<rparr>]))\<rparr>,
           bm', 2)"
    using update_spawned[OF en due middle_found] by blast
  moreover have "?p\<lparr>spawnTimer := 0,
             obstacles := filter (\<lambda>ob. \<not> expired ob)
               (map (tickObstacle ?p) (obstacles ?p @ [newObstacle ?p \<lparr>vec_x = 600, vec_y = 300\<rparr>]))\<rparr>
        = firstSpawned"
    by (simp add: firstSpawned_def DynamicObstacles_new_def newObstacle_def tickObstacle_def
        updateObstaclePhase_def expired_def Let_def)
  moreover have "unitSamples (\<lambda>i. 1 / 2)" by (simp add: unitSamples_def)
  ultimately show ?thesis
    using reachable.updated[OF r] by metis
qed

subsection \<open>The phases of an obstacle\<close>

lemma steps_by_age:
  assumes "0 < activeTime p" "0 < fadeTime p"
  shows "stageRank (phaseByAge p n) \<le> stageRank (phaseByAge p (Suc n)) \<and>
         stageRank (phaseByAge p (Suc n)) \<le> stageRank (phaseByAge p n) + 1"
  using assms by (simp add: phaseByAge_def)

lemma all_stages_by_age:
  assumes "0 < activeTime p" "0 < fadeTime p"
  shows "phaseByAge p 0 = Some Warning \<and>
         phaseByAge p (warningTime p + 1) = Some Active \<and>
         phaseByAge p (warningTime p + activeTime p + 1) = Some Fading \<and>
         phaseByAge p (warningTime p + activeTime p + fadeTime p + 1) = None"
  using assms by (simp add: phaseByAge_def)

lemma ticks_fields:
  "age ((tickObstacle p ^^ n) ob) = age ob + n \<and> maxAge ((tickObstacle p ^^ n) ob) = maxAge ob"
  by (induction n) (simp_all add: tick_fields)

lemma ticks_stage:
  "stage ((tickObstacle p ^^ n) (newObstacle p pos)) = phaseByAge p n"
proof (cases n)
  case 0
  then show ?thesis
    by (simp add: stage_def expired_def newObstacle_def phaseByAge_def)
next
  case (Suc m)
  have "maxAge ((tickObstacle p ^^ m) (newObstacle p pos))
          = warningTime p + activeTime p + fadeTime p"
    and "age ((tickObstacle p ^^ m) (newObstacle p pos)) = m"
    by (simp_all add: ticks_fields newObstacle_def)
  then show ?thesis
    using tick_stage[of "(tickObstacle p ^^ m) (newObstacle p pos)" p] Suc by simp
qed

lemma phaseByAge_settings:
  "warningTime q = warningTime p \<Longrightarrow> activeTime q = activeTime p \<Longrightarrow>
   fadeTime q = fadeTime p \<Longrightarrow> phaseByAge q = phaseByAge p"
  by (intro ext) (simp add: phaseByAge_def)

lemma aged_tick:
  assumes "maxAge ob = warningTime p + activeTime p + fadeTime p"
    and "\<not> expired (tickObstacle p ob)"
  shows "aged p (tickObstacle p ob)"
proof -
  have "stage (tickObstacle p ob) = phaseByAge p (age (tickObstacle p ob))"
    unfolding tick_fields(1) by (rule tick_stage[OF assms(1)])
  moreover have "maxAge (tickObstacle p ob) = warningTime p + activeTime p + fadeTime p"
    unfolding tick_fields(2) by (rule assms(1))
  ultimately show ?thesis
    unfolding aged_def using assms(2) by blast
qed

lemma aged_ticked:
  assumes "\<And>ob. ob \<in> set obs \<Longrightarrow> maxAge ob = warningTime p + activeTime p + fadeTime p"
  shows "list_all (aged p) (filter (\<lambda>ob. \<not> expired ob) (map (tickObstacle p) obs))"
  unfolding list_all_iff
proof
  fix x
  assume "x \<in> set (filter (\<lambda>ob. \<not> expired ob) (map (tickObstacle p) obs))"
  then obtain ob where ob: "ob \<in> set obs" "x = tickObstacle p ob" "\<not> expired (tickObstacle p ob)"
    by auto
  show "aged p x"
    unfolding ob(2) using assms[OF ob(1)] ob(3) by (rule aged_tick)
qed

lemma aged_settings:
  "warningTime q = warningTime p \<Longrightarrow> activeTime q = activeTime p \<Longrightarrow>
   fadeTime q = fadeTime p \<Longrightarrow> aged q = aged p"
  using phaseByAge_settings[of q p] by (intro ext) (simp add: aged_def)

lemma reachable_aged:
  "reachable tbl p \<Longrightarrow>
   warningTime p = 120 \<and> activeTime p = 300 \<and> fadeTime p = 60 \<and> list_all (aged p) (obstacles p)"
proof (induction rule: reachable.induct)
  case constructed
  show ?case by (simp add: settings_new)
next
  case (updated p rnd bm idx p' bm' idx')
  note u = update_obstacles[OF updated(3)]
  have s: "aged p' = aged p" using u by (intro aged_settings) simp_all
  have new: "\<And>pos. maxAge (newObstacle p pos) = warningTime p + activeTime p + fadeTime p"
    by (simp add: newObstacle_def)
  have old: "\<And>ob. ob \<in> set (obstacles p) \<Longrightarrow>
      maxAge ob = warningTime p + activeTime p + fadeTime p"
    using updated.IH unfolding list_all_iff aged_def by blast
  have both: "\<And>pos ob. ob \<in> set (obstacles p @ [newObstacle p pos]) \<Longrightarrow>
      maxAge ob = warningTime p + activeTime p + fadeTime p"
    using old new by auto
  from u have "obstacles p' = obstacles p \<or>
      obstacles p' = filter (\<lambda>ob. \<not> expired ob) (map (tickObstacle p) (obstacles p)) \<or>
      (\<exists>i. obstacles p' = filter (\<lambda>ob. \<not> expired ob)
                  (map (tickObstacle p)
                     (obstacles p @
                        [newObstacle p \<lparr>vec_x = candidateX tbl rnd i, vec_y = candidateY tbl rnd i\<rparr>])))"
    by blast
  then have "list_all (aged p) (obstacles p')"
  proof (elim disjE exE)
    assume "obstacles p' = obstacles p"
    then show ?thesis using updated.IH by simp
  next
    assume "obstacles p' = filter (\<lambda>ob. \<not> expired ob) (map (tickObstacle p) (obstacles p))"
    then show ?thesis
      using aged_ticked[of "obstacles p" p, OF old] by simp
  next
    fix i
    assume "obstacles p' = filter (\<lambda>ob. \<not> expired ob)
                  (map (tickObstacle p)
                     (obstacles p @
                        [newObstacle p \<lparr>vec_x = candidateX tbl rnd i, vec_y = candidateY tbl rnd i\<rparr>]))"
    then show ?thesis
      using aged_ticked[of "obstacles p @
          [newObstacle p \<lparr>vec_x = candidateX tbl rnd i, vec_y = candidateY tbl rnd i\<rparr>]" p,
          OF both]
      by simp
  qed
  then show ?case using u updated.IH by (simp add: s)
next
  case (enabled p)
  have "aged (enable p) = aged p" by (intro aged_settings) (simp_all add: enable_def)
  with enabled show ?case by (simp add: enable_def)
next
  case (disabled p p')
  then show ?case by (auto simp: disable_result)
next
  case (toggled p p')
  have "aged (enable p) = aged p" by (intro aged_settings) (simp_all add: enable_def)
  with toggled show ?case
    by (auto simp: toggle_def disable_result enable_def split: if_splits)
qed

text \<open>
  C5. In every state the field can reach, each obstacle in the container has not
  expired and shows the phase that the three thresholds give for its age: warning up
  to \<open>warningTime\<close>, active up to \<open>warningTime + activeTime\<close>, fading up to \<open>maxAge\<close>.
  An update tick returns, adds one to the age of every obstacle, sets its phase by the
  new age, and removes it exactly when the new age exceeds \<open>maxAge\<close>; so after \<open>n\<close> ticks
  a spawned obstacle is at the stage the thresholds give for \<open>n\<close>. From an age to the
  next the stage stays or moves one place along warning, active, fading, removed: none
  is skipped, none comes back, and all four are met.
\<close>

theorem lifecycle_linear:
  assumes "reachable tbl p"
  shows "list_all (aged p) (obstacles p) \<and>
         (\<exists>bm'. updateObstacles p tbl bm =
            Inr (p\<lparr>obstacles := filter (\<lambda>ob. \<not> expired ob)
                                   (map (tickObstacle p) (obstacles p))\<rparr>, bm')) \<and>
         list_all (\<lambda>ob. age (tickObstacle p ob) = age ob + 1 \<and>
                         stage (tickObstacle p ob) = phaseByAge p (age ob + 1)) (obstacles p) \<and>
         stage ((tickObstacle p ^^ n) (newObstacle p pos)) = phaseByAge p n \<and>
         stageRank (phaseByAge p n) \<le> stageRank (phaseByAge p (Suc n)) \<and>
         stageRank (phaseByAge p (Suc n)) \<le> stageRank (phaseByAge p n) + 1 \<and>
         phaseByAge p 0 = Some Warning \<and> phaseByAge p 121 = Some Active \<and>
         phaseByAge p 421 = Some Fading \<and> phaseByAge p 481 = None"
proof -
  note r = reachable_aged[OF assms]
  have pos: "0 < activeTime p" "0 < fadeTime p" using r by simp_all
  have "\<And>ob. ob \<in> set (obstacles p) \<Longrightarrow>
          maxAge ob = warningTime p + activeTime p + fadeTime p"
    using r by (simp add: list_all_iff aged_def)
  then have "list_all (\<lambda>ob. age (tickObstacle p ob) = age ob + 1 \<and>
                        stage (tickObstacle p ob) = phaseByAge p (age ob + 1)) (obstacles p)"
    unfolding list_all_iff using tick_stage[of _ p] by (simp add: tick_fields)
  moreover have "phaseByAge p 0 = Some Warning \<and> phaseByAge p 121 = Some Active \<and>
         phaseByAge p 421 = Some Fading \<and> phaseByAge p 481 = None"
    using r by (simp add: phaseByAge_def)
  ultimately show ?thesis
    using r updateObstacles_result[of p tbl bm] ticks_stage[where p = p and n = n and pos = pos]
      steps_by_age[OF pos, of n]
    by simp
qed

text \<open>
  The state reached when the first obstacle has spawned: the obstacle is one tick old
  and in its warning phase, and the next tick leaves it there at age 2.
\<close>

theorem lifecycle_linear_witness:
  "list_all (\<lambda>ob. age ob = 1 \<and> stage ob = Some Warning) (obstacles firstSpawned) \<and>
   list_all (\<lambda>ob. age (tickObstacle firstSpawned ob) = 2 \<and>
                   stage (tickObstacle firstSpawned ob) = Some Warning) (obstacles firstSpawned) \<and>
   stage ((tickObstacle firstSpawned ^^ 120) (newObstacle firstSpawned \<lparr>vec_x = 600, vec_y = 300\<rparr>))
     = Some Warning \<and>
   stage ((tickObstacle firstSpawned ^^ 121) (newObstacle firstSpawned \<lparr>vec_x = 600, vec_y = 300\<rparr>))
     = Some Active \<and>
   stage ((tickObstacle firstSpawned ^^ 421) (newObstacle firstSpawned \<lparr>vec_x = 600, vec_y = 300\<rparr>))
     = Some Fading \<and>
   stage ((tickObstacle firstSpawned ^^ 481) (newObstacle firstSpawned \<lparr>vec_x = 600, vec_y = 300\<rparr>))
     = None"
proof -
  have s: "warningTime firstSpawned = 120" "activeTime firstSpawned = 300"
    "fadeTime firstSpawned = 60"
    by (simp_all add: firstSpawned_def DynamicObstacles_new_def)
  have by_age: "phaseByAge firstSpawned 1 = Some Warning" "phaseByAge firstSpawned 2 = Some Warning"
    "phaseByAge firstSpawned 120 = Some Warning" "phaseByAge firstSpawned 121 = Some Active"
    "phaseByAge firstSpawned 421 = Some Fading" "phaseByAge firstSpawned 481 = None"
    by (simp_all add: phaseByAge_def s)
  have o: "obstacles firstSpawned =
      [\<lparr>obs_x = 600, obs_y = 300, age = 1, maxAge = 480, phase = Warning,
        rotationAngle = 0.08, rotationSpeed = 0.08, obs_body = None, active = False\<rparr>]"
    by (simp add: firstSpawned_def DynamicObstacles_new_def)
  note l = lifecycle_linear[OF reachable_firstSpawned]
  have a: "list_all (aged firstSpawned) (obstacles firstSpawned)"
    and t: "list_all (\<lambda>ob. age (tickObstacle firstSpawned ob) = age ob + 1 \<and>
              stage (tickObstacle firstSpawned ob) = phaseByAge firstSpawned (age ob + 1))
              (obstacles firstSpawned)"
    and n: "\<And>n pos. stage ((tickObstacle firstSpawned ^^ n) (newObstacle firstSpawned pos))
              = phaseByAge firstSpawned n"
    using l by blast+
  let ?ob = "\<lparr>obs_x = 600, obs_y = 300, age = 1, maxAge = 480, phase = Warning,
        rotationAngle = 0.08, rotationSpeed = 0.08, obs_body = None, active = False\<rparr>"
  have "stage ?ob = phaseByAge firstSpawned (age ?ob)"
    using a unfolding o by (simp add: aged_def)
  then have c1: "age ?ob = 1 \<and> stage ?ob = Some Warning"
    using by_age(1) by simp
  have "age (tickObstacle firstSpawned ?ob) = age ?ob + 1 \<and>
        stage (tickObstacle firstSpawned ?ob) = phaseByAge firstSpawned (age ?ob + 1)"
    using t unfolding o by simp
  moreover have "age ?ob + 1 = 2" by simp
  ultimately have c2: "age (tickObstacle firstSpawned ?ob) = 2 \<and>
        stage (tickObstacle firstSpawned ?ob) = Some Warning"
    using by_age(2) by (simp only:)
  show ?thesis
    unfolding n by_age o using c1 c2 by simp
qed

subsection \<open>A search that finds nothing\<close>

text \<open>
  C8. When every candidate the search draws is rejected, \<open>findSafeSpawnPosition\<close> returns
  none after exactly 50 attempts (100 random samples), \<open>spawnRandomObstacle\<close> returns the
  field unchanged, and an update that was due to spawn is the obstacle update of the
  field with the timer reset to zero and nothing else changed: no fault, no obstacle
  added, and the next attempt waits for the timer to reach the spawn rate again.
  Whatever the candidates, the search never draws more than 100 samples.
\<close>

theorem spawn_search_exhausted:
  assumes "\<forall>k<maxAttempts. rejected p tbl bm (candidateX tbl rnd (idx + 2 * k))
                                               (candidateY tbl rnd (idx + 2 * k))"
  shows "findSafeSpawnPosition p tbl bm rnd idx = (None, idx + 100) \<and>
         spawnRandomObstacle p tbl bm rnd idx = (p, idx + 100) \<and>
         (do_enabled p \<and> spawnDue p bm \<longrightarrow>
            (\<exists>p' bm'. update p tbl bm rnd idx = Inr (p', bm', idx + 100) \<and>
                       updateObstacles (p\<lparr>spawnTimer := 0\<rparr>) tbl bm = Inr (p', bm') \<and>
                       spawnTimer p' = 0)) \<and>
         snd (findSafeSpawnPosition q tbl' bm' rnd' idx) \<le> idx + 100"
proof -
  have "findSafeSpawnPosition_loop p tbl bm rnd idx 0 = (None, idx + 2 * (maxAttempts - 0))"
    using assms by (intro search_all_rejected) simp
  then have f: "findSafeSpawnPosition p tbl bm rnd idx = (None, idx + 100)"
    by (simp add: findSafeSpawnPosition_def maxAttempts_def)
  have s: "spawnRandomObstacle p tbl bm rnd idx = (p, idx + 100)"
    by (simp add: spawn_result f)
  have u: "do_enabled p \<and> spawnDue p bm \<longrightarrow>
            (\<exists>p' bm'. update p tbl bm rnd idx = Inr (p', bm', idx + 100) \<and>
                       updateObstacles (p\<lparr>spawnTimer := 0\<rparr>) tbl bm = Inr (p', bm') \<and>
                       spawnTimer p' = 0)"
  proof
    assume "do_enabled p \<and> spawnDue p bm"
    then obtain bm1 where "update p tbl bm rnd idx =
           Inr (p\<lparr>spawnTimer := 0,
                  obstacles := filter (\<lambda>ob. \<not> expired ob) (map (tickObstacle p) (obstacles p))\<rparr>,
                bm1, idx + 100)"
      and "updateObstacles (p\<lparr>spawnTimer := 0\<rparr>) tbl bm =
           Inr (p\<lparr>spawnTimer := 0,
                  obstacles := filter (\<lambda>ob. \<not> expired ob) (map (tickObstacle p) (obstacles p))\<rparr>,
                bm1)"
      using update_spawn_failed[OF _ _ f] by blast
    then show "\<exists>p' bm'. update p tbl bm rnd idx = Inr (p', bm', idx + 100) \<and>
                       updateObstacles (p\<lparr>spawnTimer := 0\<rparr>) tbl bm = Inr (p', bm') \<and>
                       spawnTimer p' = 0"
      by simp
  qed
  have b: "snd (findSafeSpawnPosition q tbl' bm' rnd' idx) \<le> idx + 100"
    using search_budget[of q tbl' bm' rnd' idx 0]
    by (simp add: findSafeSpawnPosition_def maxAttempts_def)
  show ?thesis using f s u b by blast
qed

text \<open>
  On the game's table, with the cue ball resting in the middle and every sample equal
  to 1/2, each candidate is the middle of the table, less than 80 from the cue ball.
\<close>

theorem spawn_search_exhausted_witness:
  "findSafeSpawnPosition (DynamicObstacles_new\<lparr>spawnTimer := 419\<rparr>) Table_new
     (cueBallAt 600 300) (\<lambda>i. 1 / 2) 0 = (None, 100) \<and>
   spawnRandomObstacle (DynamicObstacles_new\<lparr>spawnTimer := 419\<rparr>) Table_new
     (cueBallAt 600 300) (\<lambda>i. 1 / 2) 0 = (DynamicObstacles_new\<lparr>spawnTimer := 419\<rparr>, 100) \<and>
   (\<exists>p' bm'. update (DynamicObstacles_new\<lparr>spawnTimer := 419\<rparr>) Table_new
                (cueBallAt 600 300) (\<lambda>i. 1 / 2) 0 = Inr (p', bm', 100) \<and>
              spawnTimer p' = 0)"
proof -
  let ?p = "DynamicObstacles_new\<lparr>spawnTimer := 419\<rparr>"
  have rej: "\<forall>k<maxAttempts. rejected ?p Table_new (cueBallAt 600 300)
      (candidateX Table_new (\<lambda>i. 1 / 2) (0 + 2 * k)) (candidateY Table_new (\<lambda>i. 1 / 2) (0 + 2 * k))"
    by (simp add: middle_candidate rejected_def tooCloseToBalls_def ballWithin80_def
        getCueBall_def cueBallAt_def dist2_same_y)
  have due: "do_enabled ?p \<and> spawnDue ?p (cueBallAt 600 300)"
    by (simp add: spawnDue_def settings_new areBallsMoving_def cueBallAt_def)
  note e = spawn_search_exhausted[OF rej, of ?p Table_new "cueBallAt 600 300" "\<lambda>i. 1 / 2"]
  from e due obtain p' bm' where
    "update ?p Table_new (cueBallAt 600 300) (\<lambda>i. 1 / 2) 0 = Inr (p', bm', 0 + 100)"
    "spawnTimer p' = 0"
    by blast
  then have "\<exists>p' bm'. update ?p Table_new (cueBallAt 600 300) (\<lambda>i. 1 / 2) 0 = Inr (p', bm', 100) \<and>
              spawnTimer p' = 0"
    by auto
  then show ?thesis
    using e by simp
qed

subsection \<open>Where obstacles are\<close>

lemma inside_ticked:
  assumes "list_all (\<lambda>ob. insideMargin tbl (obs_x ob) (obs_y ob)) obs"
  shows "list_all (\<lambda>ob. insideMargin tbl (obs_x ob) (obs_y ob))
           (filter (\<lambda>ob. \<not> expired ob) (map (tickObstacle p) obs))"
  using assms by (auto simp: list_all_iff tick_fields)

lemma reachable_inside:
  assumes "160 \<le> table_length tbl" "160 \<le> table_width tbl"
  shows "reachable tbl p \<Longrightarrow>
         list_all (\<lambda>ob. insideMargin tbl (obs_x ob) (obs_y ob)) (obstacles p)"
proof (induction rule: reachable.induct)
  case constructed
  show ?case by (simp add: settings_new)
next
  case (updated p rnd bm idx p' bm' idx')
  note u = update_obstacles[OF updated(3)]
  have new: "\<And>i. list_all (\<lambda>ob. insideMargin tbl (obs_x ob) (obs_y ob))
      (obstacles p @ [newObstacle p \<lparr>vec_x = candidateX tbl rnd i, vec_y = candidateY tbl rnd i\<rparr>])"
    using updated.IH candidate_inside[OF updated(2) assms]
    by (simp add: newObstacle_def)
  from u have "obstacles p' = obstacles p \<or>
      obstacles p' = filter (\<lambda>ob. \<not> expired ob) (map (tickObstacle p) (obstacles p)) \<or>
      (\<exists>i. obstacles p' = filter (\<lambda>ob. \<not> expired ob)
                  (map (tickObstacle p)
                     (obstacles p @
                        [newObstacle p \<lparr>vec_x = candidateX tbl rnd i, vec_y = candidateY tbl rnd i\<rparr>])))"
    by blast
  then show ?case
  proof (elim disjE exE)
    assume "obstacles p' = obstacles p"
    then show ?thesis using updated.IH by simp
  next
    assume "obstacles p' = filter (\<lambda>ob. \<not> expired ob) (map (tickObstacle p) (obstacles p))"
    then show ?thesis using inside_ticked[OF updated.IH] by simp
  next
    fix i
    assume "obstacles p' = filter (\<lambda>ob. \<not> expired ob)
                  (map (tickObstacle p)
                     (obstacles p @
                        [newObstacle p \<lparr>vec_x = candidateX tbl rnd i, vec_y = candidateY tbl rnd i\<rparr>]))"
    then show ?thesis using inside_ticked[OF new] by simp
  qed
next
  case (enabled p)
  then show ?case by (simp add: enable_def)
next
  case (disabled p p')
  then show ?case by (auto simp: disable_result)
next
  case (toggled p p')
  then show ?case
    by (auto simp: toggle_def disable_result enable_def split: if_splits)
qed

text \<open>
  C10. On a table at least 160 long and wide (the game's is 1000 by 500), with random
  samples in [0, 1): every position \<open>findSafeSpawnPosition\<close> returns has its first
  coordinate in [left + 80, right - 80] and its second in [top + 80, bottom - 80]; a
  tick leaves the centre of an obstacle where it is; and in every state the field can
  reach, every obstacle in the container is at least 80 inside each table boundary.
\<close>

theorem spawn_inside_margin:
  assumes "160 \<le> table_length tbl" "160 \<le> table_width tbl"
  shows "(unitSamples rnd \<and> findSafeSpawnPosition p tbl bm rnd idx = (Some pos, idx') \<longrightarrow>
            insideMargin tbl (vec_x pos) (vec_y pos)) \<and>
         obs_x (tickObstacle p ob) = obs_x ob \<and> obs_y (tickObstacle p ob) = obs_y ob \<and>
         (reachable tbl q \<longrightarrow>
            list_all (\<lambda>ob. insideMargin tbl (obs_x ob) (obs_y ob)) (obstacles q))"
proof -
  have "unitSamples rnd \<and> findSafeSpawnPosition p tbl bm rnd idx = (Some pos, idx') \<longrightarrow>
            insideMargin tbl (vec_x pos) (vec_y pos)"
  proof
    assume h: "unitSamples rnd \<and> findSafeSpawnPosition p tbl bm rnd idx = (Some pos, idx')"
    then obtain i where "pos = \<lparr>vec_x = candidateX tbl rnd i, vec_y = candidateY tbl rnd i\<rparr>"
      using search_found[of p tbl bm rnd idx 0 pos idx'] by (auto simp: findSafeSpawnPosition_def)
    then show "insideMargin tbl (vec_x pos) (vec_y pos)"
      using candidate_inside[OF _ assms, of rnd i] h by simp
  qed
  then show ?thesis
    using reachable_inside[OF assms, of q] by (simp add: tick_fields)
qed

text \<open>
  On the game's table the search that draws 1/2 twice accepts the middle, (600, 300),
  which is between 180 and 1020 and between 130 and 470; the obstacle spawned there is
  still at (600, 300) in the state reached one update later.
\<close>

theorem spawn_inside_margin_witness:
  "findSafeSpawnPosition (DynamicObstacles_new\<lparr>spawnTimer := 419\<rparr>) Table_new
     (cueBallAt 300 300) (\<lambda>i. 1 / 2) 0 = (Some \<lparr>vec_x = 600, vec_y = 300\<rparr>, 2) \<and>
   insideMargin Table_new 600 300 \<and>
   (180 \<le> (600::real) \<and> (600::real) \<le> 1020 \<and> 130 \<le> (300::real) \<and> (300::real) \<le> 470) \<and>
   list_all (\<lambda>ob. insideMargin Table_new (obs_x ob) (obs_y ob)) (obstacles firstSpawned) \<and>
   map obs_x (obstacles firstSpawned) = [600] \<and> map obs_y (obstacles firstSpawned) = [300]"
proof -
  have t: "160 \<le> table_length Table_new" "160 \<le> table_width Table_new"
    by (simp_all add: Table_new_def)
  have u: "unitSamples (\<lambda>i. 1 / 2)" by (simp add: unitSamples_def)
  note m = spawn_inside_margin[OF t, of "\<lambda>i. 1 / 2" "DynamicObstacles_new\<lparr>spawnTimer := 419\<rparr>"
      "cueBallAt 300 300" 0 "\<lparr>vec_x = 600, vec_y = 300\<rparr>" 2 _ firstSpawned]
  have i: "insideMargin Table_new 600 300"
    using m u middle_found[of 419] by simp
  have l: "list_all (\<lambda>ob. insideMargin Table_new (obs_x ob) (obs_y ob)) (obstacles firstSpawned)"
    using m reachable_firstSpawned by simp
  have o: "map obs_x (obstacles firstSpawned) = [600]" "map obs_y (obstacles firstSpawned) = [300]"
    by (simp_all add: firstSpawned_def DynamicObstacles_new_def)
  show ?thesis
    using i l o middle_found[of 419] by simp
qed


end
